theory Spec2Isabelle
  imports Main "HOL-Library.Word"
begin

section \<open>zipassets: serving archive members over HTTP\<close>

text \<open>
  A shallow embedding of the Go package \<^verbatim>\<open>zipassets\<close> (the latest revision of the
  source, with \<^verbatim>\<open>parseRange\<close>, \<^verbatim>\<open>rangesMIMESize\<close> and the range-aware
  \<^verbatim>\<open>ServeHTTP\<close>).  Go strings and byte slices are both sequences of bytes; they are
  modelled as lists of \<^typ>\<open>char\<close>, which in HOL is an 8-bit byte.  Go's \<^verbatim>\<open>int64\<close> is
  a 64-bit word read in two's complement: \<open>+\<close> and \<open>-\<close> wrap around, comparisons go
  through \<^const>\<open>sint\<close>.
\<close>

type_synonym bytes = string
type_synonym int64 = "64 word"

subsection \<open>The parts of the Go library the package calls\<close>

subsubsection \<open>Package strings\<close>

definition HasPrefix :: "string \<Rightarrow> string \<Rightarrow> bool" where
  "HasPrefix s p = (take (length p) s = p)"

definition HasSuffix :: "string \<Rightarrow> string \<Rightarrow> bool" where
  "HasSuffix s p = (length p \<le> length s \<and> drop (length s - length p) s = p)"

text \<open>
  \<^verbatim>\<open>strings.Split(s, sep)\<close> for a one-byte separator: one piece more than there are
  separators, so the empty string splits into one empty piece.
\<close>

fun splitOn :: "char \<Rightarrow> string \<Rightarrow> string \<Rightarrow> string list" where
  "splitOn c cur [] = [cur]"
| "splitOn c cur (x # xs) =
     (if x = c then cur # splitOn c [] xs else splitOn c (cur @ [x]) xs)"

definition Split :: "string \<Rightarrow> char \<Rightarrow> string list" where
  "Split s c = splitOn c [] s"

text \<open>\<^verbatim>\<open>strings.Index(s, sep)\<close> for a one-byte separator: the first position, or -1.\<close>

definition Index :: "string \<Rightarrow> char \<Rightarrow> int" where
  "Index s c = (if c \<in> set s then int (length (takeWhile (\<lambda>x. x \<noteq> c) s)) else - 1)"

text \<open>
  \<^verbatim>\<open>strings.TrimSpace\<close> removes the leading and the trailing runes for which
  \<^verbatim>\<open>unicode.IsSpace\<close> holds.  On the UTF-8 bytes of the string these are the six ASCII
  spaces, U+0085 and U+00A0 (two bytes each), and U+1680, U+2000 to U+200A, U+2028,
  U+2029, U+202F, U+205F and U+3000 (three bytes each).  \<open>spaceWidth\<close> is the number of
  bytes of a space rune at the front of the string (0 when there is none) and
  \<open>spaceWidthRev\<close> the same for the end of the string, read backwards.
\<close>

definition asciiSpace :: "char \<Rightarrow> bool" where
  "asciiSpace c = (c = CHR 0x09 \<or> c = CHR 0x0A \<or> c = CHR 0x0B \<or> c = CHR 0x0C
     \<or> c = CHR 0x0D \<or> c = CHR 0x20)"

definition space3 :: "char \<Rightarrow> char \<Rightarrow> char \<Rightarrow> bool" where
  "space3 a b c =
     ((a = CHR 0xE1 \<and> b = CHR 0x9A \<and> c = CHR 0x80)
    \<or> (a = CHR 0xE2 \<and> b = CHR 0x80 \<and> (128::nat) \<le> of_char c \<and> (of_char c :: nat) \<le> 138)
    \<or> (a = CHR 0xE2 \<and> b = CHR 0x80 \<and> (c = CHR 0xA8 \<or> c = CHR 0xA9 \<or> c = CHR 0xAF))
    \<or> (a = CHR 0xE2 \<and> b = CHR 0x81 \<and> c = CHR 0x9F)
    \<or> (a = CHR 0xE3 \<and> b = CHR 0x80 \<and> c = CHR 0x80))"

definition space2 :: "char \<Rightarrow> char \<Rightarrow> bool" where
  "space2 a b = (a = CHR 0xC2 \<and> (b = CHR 0x85 \<or> b = CHR 0xA0))"

fun spaceWidth :: "string \<Rightarrow> nat" where
  "spaceWidth [] = 0"
| "spaceWidth [a] = (if asciiSpace a then 1 else 0)"
| "spaceWidth [a, b] = (if asciiSpace a then 1 else if space2 a b then 2 else 0)"
| "spaceWidth (a # b # c # s) =
     (if asciiSpace a then 1 else if space2 a b then 2 else if space3 a b c then 3 else 0)"

fun spaceWidthRev :: "string \<Rightarrow> nat" where
  "spaceWidthRev [] = 0"
| "spaceWidthRev [a] = (if asciiSpace a then 1 else 0)"
| "spaceWidthRev [b, a] = (if asciiSpace b then 1 else if space2 a b then 2 else 0)"
| "spaceWidthRev (c # b # a # s) =
     (if asciiSpace c then 1 else if space2 b c then 2 else if space3 a b c then 3 else 0)"

function trimLeft :: "string \<Rightarrow> string" where
  "trimLeft s = (if spaceWidth s = 0 then s else trimLeft (drop (spaceWidth s) s))"
  by pat_completeness auto
termination
  by (relation "measure length") (auto intro: Nat.diff_less simp: neq_Nil_conv)

function trimLeftRev :: "string \<Rightarrow> string" where
  "trimLeftRev s = (if spaceWidthRev s = 0 then s else trimLeftRev (drop (spaceWidthRev s) s))"
  by pat_completeness auto
termination
  by (relation "measure length") (auto intro: Nat.diff_less simp: neq_Nil_conv)

declare trimLeft.simps [simp del] trimLeftRev.simps [simp del]

definition TrimSpace :: "string \<Rightarrow> string" where
  "TrimSpace s = rev (trimLeftRev (rev (trimLeft s)))"

subsubsection \<open>Package strconv and the verb \<^verbatim>\<open>%d\<close>\<close>

definition digitVal :: "char \<Rightarrow> nat option" where
  "digitVal c = (if (48::nat) \<le> of_char c \<and> (of_char c :: nat) \<le> 57
                 then Some (of_char c - 48) else None)"

fun parseDigits :: "nat \<Rightarrow> string \<Rightarrow> nat option" where
  "parseDigits acc [] = Some acc"
| "parseDigits acc (c # cs) =
     (case digitVal c of None \<Rightarrow> None | Some d \<Rightarrow> parseDigits (acc * 10 + d) cs)"

text \<open>
  \<^verbatim>\<open>strconv.ParseInt(s, 10, 64)\<close>: an optional sign, then one or more decimal digits;
  \<open>None\<close> stands for any error (syntax, or a value outside \<open>-2^63 .. 2^63 - 1\<close>).
\<close>

definition ParseInt :: "string \<Rightarrow> int64 option" where
  "ParseInt s =
     (case s of [] \<Rightarrow> None
      | c # cs \<Rightarrow>
         (let neg = (c = CHR ''-'');
              s1 = (if c = CHR ''+'' \<or> c = CHR ''-'' then cs else s)
          in if s1 = [] then None
             else case parseDigits 0 s1 of None \<Rightarrow> None
                  | Some un \<Rightarrow>
                      if \<not> neg \<and> un \<ge> 2 ^ 63 then None
                      else if neg \<and> un > 2 ^ 63 then None
                      else Some (if neg then - (of_nat un) else of_nat un)))"

definition digitChar :: "nat \<Rightarrow> char" where
  "digitChar d = ''0123456789'' ! d"

fun showNat :: "nat \<Rightarrow> string" where
  "showNat n = (if n < 10 then [digitChar n] else showNat (n div 10) @ [digitChar (n mod 10)])"

declare showNat.simps [simp del]

text \<open>\<^verbatim>\<open>strconv.FormatInt(i, 10)\<close> and \<^verbatim>\<open>fmt.Sprintf("%d", i)\<close> for an \<^verbatim>\<open>int64\<close>.\<close>

definition FormatInt :: "int64 \<Rightarrow> string" where
  "FormatInt i = (if sint i < 0 then CHR ''-'' # showNat (nat (- sint i)) else showNat (nat (sint i)))"

subsection \<open>Byte ranges\<close>

text \<open>
  Error values: \<open>EOF\<close> is \<^verbatim>\<open>io.EOF\<close>, \<open>ErrorString msg\<close> is \<^verbatim>\<open>errors.New(msg)\<close> and
  stands for every other error of the library as well; \<open>Error\<close> reads the message back.
\<close>

datatype error = EOF | ErrorString string

fun Error :: "error \<Rightarrow> string" where
  "Error EOF = ''EOF''"
| "Error (ErrorString m) = m"

record httpRange =
  start :: int64
  lengthR :: int64

definition contentRange :: "httpRange \<Rightarrow> int64 \<Rightarrow> string" where
  "contentRange r sz =
     ''bytes '' @ FormatInt (start r) @ ''-'' @ FormatInt (start r + lengthR r - 1)
       @ ''/'' @ FormatInt sz"

text \<open>
  One turn of the loop of \<^verbatim>\<open>parseRange\<close> on the piece \<open>ra0\<close>: \<open>Inr None\<close> is
  \<^verbatim>\<open>continue\<close> (a blank piece), \<open>Inr (Some r)\<close> the range appended, \<open>Inl e\<close> the error
  returned.
\<close>

definition parseRangeStep :: "int64 \<Rightarrow> string \<Rightarrow> error + httpRange option" where
  "parseRangeStep sz ra0 =
     (let ra = TrimSpace ra0 in
      if ra = [] then Inr None
      else
        let i = Index ra (CHR ''-'') in
        if i < 0 then Inl (ErrorString ''invalid range'')
        else
          let startS = TrimSpace (take (nat i) ra);
              endS = TrimSpace (drop (nat i + 1) ra)
          in
          if startS = [] then
            (case ParseInt endS of
               None \<Rightarrow> Inl (ErrorString ''invalid range'')
             | Some i \<Rightarrow>
                 let i = (if sint sz < sint i then sz else i);
                     rstart = sz - i;
                     rlength = sz - rstart
                 in Inr (Some \<lparr>start = rstart, lengthR = rlength\<rparr>))
          else
            (case ParseInt startS of
               None \<Rightarrow> Inl (ErrorString ''invalid range'')
             | Some i \<Rightarrow>
                 if sint sz < sint i \<or> sint i < 0 then Inl (ErrorString ''invalid range'')
                 else
                   let rstart = i in
                   if endS = [] then Inr (Some \<lparr>start = rstart, lengthR = sz - rstart\<rparr>)
                   else
                     (case ParseInt endS of
                        None \<Rightarrow> Inl (ErrorString ''invalid range'')
                      | Some i \<Rightarrow>
                          if sint i < sint rstart then Inl (ErrorString ''invalid range'')
                          else
                            let i = (if sint sz \<le> sint i then sz - 1 else i)
                            in Inr (Some \<lparr>start = rstart, lengthR = i - rstart + 1\<rparr>))))"

fun parseRangeLoop :: "int64 \<Rightarrow> string list \<Rightarrow> httpRange list \<Rightarrow> error + httpRange list" where
  "parseRangeLoop sz [] ranges = Inr ranges"
| "parseRangeLoop sz (ra # ras) ranges =
     (case parseRangeStep sz ra of
        Inl e \<Rightarrow> Inl e
      | Inr None \<Rightarrow> parseRangeLoop sz ras ranges
      | Inr (Some r) \<Rightarrow> parseRangeLoop sz ras (ranges @ [r]))"

definition parseRange :: "string \<Rightarrow> int64 \<Rightarrow> error + httpRange list" where
  "parseRange s sz =
     (if s = [] then Inr []
      else if \<not> HasPrefix s ''bytes='' then Inl (ErrorString ''invalid range'')
      else parseRangeLoop sz (Split (drop (length ''bytes='') s) (CHR '','')) [])"

subsection \<open>Multipart bodies\<close>

text \<open>
  \<^verbatim>\<open>mime/multipart.Writer\<close>.  \<^verbatim>\<open>NewWriter\<close> draws 30 random bytes and prints them with
  \<^verbatim>\<open>%x\<close>, two lower-case hexadecimal digits a byte; the source of randomness is the
  argument \<open>rnd\<close>.  \<^verbatim>\<open>CreatePart\<close> writes the boundary line (after a line break unless
  the part is the first one), one line \<^verbatim>\<open>key: value\<close> for every value of the header in
  the order of the sorted keys, and an empty line.  \<^verbatim>\<open>Close\<close> writes the closing
  boundary line.
\<close>

definition CRLF :: string where
  "CRLF = [CHR 0x0D, CHR 0x0A]"

definition hexByte :: "char \<Rightarrow> string" where
  "hexByte c = [''0123456789abcdef'' ! (of_char c div 16), ''0123456789abcdef'' ! (of_char c mod 16)]"

definition randomBoundary :: "(nat \<Rightarrow> char) \<Rightarrow> string" where
  "randomBoundary rnd = concat (map (\<lambda>i. hexByte (rnd i)) [0..<30])"

type_synonym MIMEHeader = "(string \<times> string list) list"

definition headerLines :: "MIMEHeader \<Rightarrow> string" where
  "headerLines h = concat (map (\<lambda>(k, vs). concat (map (\<lambda>v. k @ '': '' @ v @ CRLF) vs)) h)"

definition CreatePart :: "string \<Rightarrow> bool \<Rightarrow> MIMEHeader \<Rightarrow> bytes" where
  "CreatePart boundary lastpart h =
     (if lastpart then CRLF @ ''--'' @ boundary @ CRLF else ''--'' @ boundary @ CRLF)
       @ headerLines h @ CRLF"

definition Close :: "string \<Rightarrow> bytes" where
  "Close boundary = CRLF @ ''--'' @ boundary @ ''--'' @ CRLF"

text \<open>The header of one part, its two keys in sorted order.\<close>

definition mimeHeader :: "httpRange \<Rightarrow> string \<Rightarrow> int64 \<Rightarrow> MIMEHeader" where
  "mimeHeader r contentType sz =
     [(''Content-Range'', [contentRange r sz]), (''Content-Type'', [contentType])]"

text \<open>
  \<^verbatim>\<open>rangesMIMESize\<close>: the loop carries whether a part has been created, the counting
  writer \<open>w\<close> and \<open>encSize\<close>.
\<close>

fun rangesMIMELoop ::
  "string \<Rightarrow> bool \<Rightarrow> httpRange list \<Rightarrow> string \<Rightarrow> int64 \<Rightarrow> int64 \<Rightarrow> int64 \<Rightarrow> int64 \<times> int64" where
  "rangesMIMELoop boundary lastpart [] contentType contentSize w encSize = (w, encSize)"
| "rangesMIMELoop boundary lastpart (ra # ras) contentType contentSize w encSize =
     rangesMIMELoop boundary True ras contentType contentSize
       (w + of_nat (length (CreatePart boundary lastpart (mimeHeader ra contentType contentSize))))
       (encSize + lengthR ra)"

definition rangesMIMESize :: "(nat \<Rightarrow> char) \<Rightarrow> httpRange list \<Rightarrow> string \<Rightarrow> int64 \<Rightarrow> int64" where
  "rangesMIMESize rnd ranges contentType contentSize =
     (let boundary = randomBoundary rnd;
          (w, encSize) = rangesMIMELoop boundary False ranges contentType contentSize 0 0;
          w = w + of_nat (length (Close boundary))
      in encSize + w)"

definition sumRangesSize :: "httpRange list \<Rightarrow> int64" where
  "sumRangesSize ranges = foldl (\<lambda>sz ra. sz + lengthR ra) 0 ranges"

text \<open>
  The goroutine of \<^verbatim>\<open>ServeHTTP\<close> that writes the parts into the pipe.  Its value is
  the bytes it writes when the reader takes all of them, and how it ends: it finishes
  (both writers closed), it closes the pipe with an error, or it panics.  The slice
  \<^verbatim>\<open>fc.content[ra.start:size]\<close> panics unless \<open>0 \<le> start \<le> size \<le> len\<close>;
  \<^verbatim>\<open>io.CopyN(dst, src, n)\<close> copies nothing for \<open>n \<le> 0\<close>, and for a source shorter than
  \<open>n\<close> it copies the source and returns \<^verbatim>\<open>io.EOF\<close>.
\<close>

datatype panic = NilDereference | SliceBounds

datatype outcome = Finished | Failed error | Panicked panic

fun producer ::
  "string \<Rightarrow> bool \<Rightarrow> httpRange list \<Rightarrow> string \<Rightarrow> bytes \<Rightarrow> int64 \<Rightarrow> bytes \<times> outcome" where
  "producer boundary lastpart [] ctype content sz = (Close boundary, Finished)"
| "producer boundary lastpart (ra # ras) ctype content sz =
     (let part = CreatePart boundary lastpart (mimeHeader ra ctype sz) in
      if \<not> (0 \<le> sint (start ra) \<and> sint (start ra) \<le> sint sz \<and> sint sz \<le> int (length content))
      then (part, Panicked SliceBounds)
      else
        let src = take (nat (sint sz) - nat (sint (start ra))) (drop (nat (sint (start ra))) content);
            n = lengthR ra;
            copied = (if sint n \<le> 0 then [] else take (nat (sint n)) src)
        in if 0 < sint n \<and> int (length src) < sint n then (part @ copied, Failed EOF)
           else (case producer boundary True ras ctype content sz of
                   (rest, oc) \<Rightarrow> (part @ copied @ rest, oc)))"

text \<open>
  \<^verbatim>\<open>io.CopyN(rw, pr, n)\<close> on the reading end of the pipe: nothing is read for
  \<open>n \<le> 0\<close>; otherwise the first \<open>n\<close> bytes the goroutine writes.  A write to the pipe
  returns once its bytes are read, so the goroutine reaches a panic exactly when all
  the bytes before it are read, and a panic of a goroutine ends the program.
\<close>

definition pipeCopyN :: "bytes \<times> outcome \<Rightarrow> int64 \<Rightarrow> panic + bytes" where
  "pipeCopyN pr n =
     (case pr of (written, oc) \<Rightarrow>
        if sint n \<le> 0 then Inr []
        else (case oc of
                Panicked p \<Rightarrow>
                  if int (length written) \<le> sint n then Inl p else Inr (take (nat (sint n)) written)
              | _ \<Rightarrow> Inr (take (nat (sint n)) written)))"

text \<open>\<^verbatim>\<open>io.CopyN(rw, bytes.NewReader(b), n)\<close>: the reader starts at offset 0.\<close>

definition readerCopyN :: "bytes \<Rightarrow> int64 \<Rightarrow> bytes" where
  "readerCopyN b n = (if sint n \<le> 0 then [] else take (nat (sint n)) b)"

subsection \<open>What the package takes from outside\<close>

text \<open>
  Times are nanoseconds since the zero \<^verbatim>\<open>time.Time\<close>, so \<^verbatim>\<open>IsZero\<close> is \<open>t = 0\<close>,
  \<^verbatim>\<open>Before\<close> is \<open><\<close> and \<^verbatim>\<open>Add(1*time.Second)\<close> adds \<open>second\<close>.
\<close>

type_synonym time = int

definition second :: int where
  "second = 1000000000"

text \<open>
  A member of a zip archive: its name, \<^verbatim>\<open>ModTime()\<close>, and what \<^verbatim>\<open>Open()\<close> gives: an
  error, or a reader from which \<^verbatim>\<open>ioutil.ReadAll\<close> gets bytes and maybe an error.
\<close>

record zipFile =
  zName :: string
  zModTime :: time
  zOpen :: "error + (bytes \<times> error option)"

text \<open>
  A tar reader is the list of the results of \<^verbatim>\<open>Next()\<close>, each an error or a header
  with the result of \<^verbatim>\<open>ioutil.ReadAll\<close> on its body; past the end of the list
  \<^verbatim>\<open>Next()\<close> returns \<^verbatim>\<open>io.EOF\<close>.
\<close>

record tarHeader =
  hName :: string
  hModTime :: time
  hIsDir :: bool

type_synonym tarReader = "(error + (tarHeader \<times> (bytes \<times> error option))) list"

text \<open>
  The file system and the library functions that are parameters of the model:
  \<^item> \<open>OpenReader\<close> is \<^verbatim>\<open>zip.OpenReader\<close>; \<open>OpenGzipTar\<close> is \<^verbatim>\<open>os.Open\<close>, then
    \<^verbatim>\<open>gzip.NewReader\<close>, then \<^verbatim>\<open>tar.NewReader\<close> (an error when one of the first two
    fails); \<open>OpenBzip2Tar\<close> is \<^verbatim>\<open>os.Open\<close>, then \<^verbatim>\<open>bzip2.NewReader\<close> and
    \<^verbatim>\<open>tar.NewReader\<close>;
  \<^item> \<open>ToLower\<close> is \<^verbatim>\<open>strings.ToLower\<close>; \<open>Dir\<close>, \<open>Base\<close> and \<open>Join\<close> are those of
    package \<^verbatim>\<open>path\<close>;
  \<^item> \<open>TypeByExtension\<close> is that of package \<^verbatim>\<open>mime\<close>, \<open>DetectContentType\<close> that of
    \<^verbatim>\<open>net/http\<close>;
  \<^item> \<open>ParseTime s\<close> is \<^verbatim>\<open>time.Parse(http.TimeFormat, s)\<close>, \<open>None\<close> for an error, and
    \<open>FormatTime t\<close> is \<^verbatim>\<open>t.UTC().Format(http.TimeFormat)\<close>;
  \<^item> \<open>rand k\<close> is the source of random bytes of the \<open>k\<close>-th \<^verbatim>\<open>multipart.NewWriter\<close> of
    a request.
\<close>

record world =
  OpenReader :: "string \<Rightarrow> error + zipFile list"
  OpenGzipTar :: "string \<Rightarrow> error + tarReader"
  OpenBzip2Tar :: "string \<Rightarrow> error + tarReader"
  ToLower :: "string \<Rightarrow> string"
  Dir :: "string \<Rightarrow> string"
  Base :: "string \<Rightarrow> string"
  Join :: "string \<Rightarrow> string \<Rightarrow> string"
  TypeByExtension :: "string \<Rightarrow> string"
  DetectContentType :: "bytes \<Rightarrow> string"
  ParseTime :: "string \<Rightarrow> time option"
  FormatTime :: "time \<Rightarrow> string"
  rand :: "nat \<Rightarrow> nat \<Rightarrow> char"

subsection \<open>HTTP messages\<close>

text \<open>
  \<^verbatim>\<open>http.Header\<close> is a map from keys to lists of values.  Every key the package uses
  is written in canonical form already, so \<^verbatim>\<open>Get\<close>, \<^verbatim>\<open>Set\<close> and \<^verbatim>\<open>delete\<close> are
  the plain map operations.
\<close>

type_synonym header = "string \<rightharpoonup> string list"

definition hGet :: "header \<Rightarrow> string \<Rightarrow> string" where
  "hGet h k = (case h k of Some (v # vs) \<Rightarrow> v | _ \<Rightarrow> [])"

definition hSet :: "header \<Rightarrow> string \<Rightarrow> string \<Rightarrow> header" where
  "hSet h k v = h(k \<mapsto> [v])"

definition hDel :: "header \<Rightarrow> string \<Rightarrow> header" where
  "hDel h k = h(k := None)"

record request =
  Method :: string
  URLPath :: string
  Header :: header

text \<open>
  The response writer is passed through the handler: the header map, the status once
  \<^verbatim>\<open>WriteHeader\<close> has been called, and the body written so far.
\<close>

record responseWriter =
  wHeader :: header
  wStatus :: "nat option"
  wBody :: bytes

definition WriteHeader :: "responseWriter \<Rightarrow> nat \<Rightarrow> responseWriter" where
  "WriteHeader w code = (if wStatus w = None then w\<lparr>wStatus := Some code\<rparr> else w)"

definition Write :: "responseWriter \<Rightarrow> bytes \<Rightarrow> responseWriter" where
  "Write w b = (let w = WriteHeader w 200 in w\<lparr>wBody := wBody w @ b\<rparr>)"

text \<open>
  \<^verbatim>\<open>http.Error\<close> and \<^verbatim>\<open>http.NotFound\<close>.  \<^verbatim>\<open>http.Error\<close> first deletes a
  \<^verbatim>\<open>Content-Length\<close> set beforehand (as it does since Go 1.23), then sets the two
  headers of the error text, writes the status and prints the message with a line feed.
\<close>

definition httpError :: "responseWriter \<Rightarrow> string \<Rightarrow> nat \<Rightarrow> responseWriter" where
  "httpError w msg code =
     (let w = w\<lparr>wHeader := hDel (wHeader w) ''Content-Length''\<rparr>;
          w = w\<lparr>wHeader := hSet (wHeader w) ''Content-Type'' ''text/plain; charset=utf-8''\<rparr>;
          w = w\<lparr>wHeader := hSet (wHeader w) ''X-Content-Type-Options'' ''nosniff''\<rparr>;
          w = WriteHeader w code
      in Write w (msg @ [CHR 0x0A]))"

definition NotFound :: "responseWriter \<Rightarrow> responseWriter" where
  "NotFound w = httpError w ''404 page not found'' 404"

subsection \<open>The content store\<close>

record filecontent =
  name :: string
  isDir :: bool
  lastModified :: time
  content :: bytes

text \<open>
  The map of a \<^verbatim>\<open>ZipAssets\<close> holds pointers, \<^verbatim>\<open>map[string]*filecontent\<close>: the
  model keeps the memory they point into, a cell for each address and the next
  address not yet used.  A variable whose address is taken lives in a cell of its
  own, which holds the zero value at first.
\<close>

type_synonym addr = nat

record memory =
  cells :: "addr \<Rightarrow> filecontent"
  unused :: addr

definition zeroFilecontent :: filecontent where
  "zeroFilecontent = \<lparr>name = [], isDir = False, lastModified = 0, content = []\<rparr>"

definition alloc :: "memory \<Rightarrow> addr \<times> memory" where
  "alloc m = (unused m, m\<lparr>cells := (cells m)(unused m := zeroFilecontent), unused := Suc (unused m)\<rparr>)"

record ZipAssets =
  path :: string
  files :: "string \<rightharpoonup> addr"

subsection \<open>Conditional requests\<close>

definition checkLastModified ::
  "world \<Rightarrow> responseWriter \<Rightarrow> request \<Rightarrow> time \<Rightarrow> responseWriter \<times> bool" where
  "checkLastModified env w r modtime =
     (if modtime = 0 then (w, False)
      else if (case ParseTime env (hGet (Header r) ''If-Modified-Since'') of
                 None \<Rightarrow> False
               | Some t \<Rightarrow> modtime < t + second)
      then
        (let w = w\<lparr>wHeader := hDel (wHeader w) ''Content-Type''\<rparr>;
             w = w\<lparr>wHeader := hDel (wHeader w) ''Content-Length''\<rparr>
         in (WriteHeader w 304, True))
      else (w\<lparr>wHeader := hSet (wHeader w) ''Last-Modified'' (FormatTime env modtime)\<rparr>, False))"

text \<open>\<^verbatim>\<open>checkETag\<close> returns the writer, the Range header to use, and whether the request is done.\<close>

definition checkETag :: "responseWriter \<Rightarrow> request \<Rightarrow> responseWriter \<times> string \<times> bool" where
  "checkETag w r =
     (let etag = hGet (wHeader w) ''Etag'';
          rangeReq = hGet (Header r) ''Range'';
          ir = hGet (Header r) ''If-Range'';
          rangeReq = (if ir \<noteq> [] \<and> ir \<noteq> etag then [] else rangeReq);
          inm = hGet (Header r) ''If-None-Match''
      in
      if inm \<noteq> [] then
        (if etag = [] then (w, rangeReq, False)
         else if Method r \<noteq> ''GET'' \<and> Method r \<noteq> ''HEAD'' then (w, rangeReq, False)
         else if inm = etag \<or> inm = ''*'' then
           (let w = w\<lparr>wHeader := hDel (wHeader w) ''Content-Type''\<rparr>;
                w = w\<lparr>wHeader := hDel (wHeader w) ''Content-Length''\<rparr>
            in (WriteHeader w 304, [], True))
         else (w, rangeReq, False))
      else (w, rangeReq, False))"

subsection \<open>The handler\<close>

text \<open>
  \<^verbatim>\<open>filepath.Ext\<close>: the suffix of the last element of the path that starts at its last
  dot, empty when that element has no dot.
\<close>

definition Ext :: "string \<Rightarrow> string" where
  "Ext p =
     (let e = takeWhile (\<lambda>c. c \<noteq> CHR ''/'') (rev p) in
      if CHR ''.'' \<in> set e then CHR ''.'' # rev (takeWhile (\<lambda>c. c \<noteq> CHR ''.'') e) else [])"

text \<open>
  The content type (the block under \<^verbatim>\<open>ctypes, haveType := rw.Header()["Content-Type"]\<close>).
  The buffer \<^verbatim>\<open>buf\<close> is declared and never allocated: it is the nil slice, of length
  and capacity 0, \<^verbatim>\<open>copy\<close> into it copies nothing, and the slice expression
  \<^verbatim>\<open>buf[:n]\<close> panics as soon as \<open>n\<close> exceeds the capacity.
\<close>

definition resolveContentType :: "world \<Rightarrow> responseWriter \<Rightarrow> string \<Rightarrow> filecontent \<Rightarrow> panic + string" where
  "resolveContentType env w upath fc =
     (case wHeader w ''Content-Type'' of
        None \<Rightarrow>
          (let ctype = TypeByExtension env (Ext upath) in
           if ctype = [] then
             (let n = (if 512 \<le> length (content fc) then 512 else length (content fc));
                  buf = ([] :: bytes);
                  capBuf = (0 :: nat)
              in if capBuf < n then Inl SliceBounds
                 else Inr (DetectContentType env (take n buf)))
           else Inr ctype)
      | Some ctypes \<Rightarrow> Inr (if 0 < length ctypes then hd ctypes else []))"

text \<open>
  The end of \<^verbatim>\<open>ServeHTTP\<close>: the two headers set when the size is known, the status,
  and the body unless the method is HEAD.
\<close>

definition sendResponse ::
  "responseWriter \<Rightarrow> request \<Rightarrow> bool \<Rightarrow> nat \<Rightarrow> int64 \<Rightarrow> panic + bytes \<Rightarrow> panic + responseWriter" where
  "sendResponse w req sizeKnown code sendSize sendContent =
     (let w = (if sizeKnown then w\<lparr>wHeader := hSet (wHeader w) ''Accept-Ranges'' ''bytes''\<rparr> else w);
          w = (if sizeKnown \<and> hGet (wHeader w) ''Content-Encoding'' = []
               then w\<lparr>wHeader := hSet (wHeader w) ''Content-Length'' (FormatInt sendSize)\<rparr> else w);
          w = WriteHeader w code
      in if Method req \<noteq> ''HEAD''
         then (case sendContent of Inl p \<Rightarrow> Inl p | Inr b \<Rightarrow> Inr (w\<lparr>wBody := wBody w @ b\<rparr>))
         else Inr w)"

text \<open>
  The range part of \<^verbatim>\<open>ServeHTTP\<close>, from \<^verbatim>\<open>size = int64(len(fc.content))\<close> on.  Past
  the check of the parse error the variable \<open>err\<close> is nil, which is what the loop over
  the ranges calls \<^verbatim>\<open>Error()\<close> on.
\<close>

definition serveContent ::
  "world \<Rightarrow> responseWriter \<Rightarrow> request \<Rightarrow> filecontent \<Rightarrow> string \<Rightarrow> string \<Rightarrow> panic + responseWriter" where
  "serveContent env w req fc ctype rangeReq =
     (let sz = (of_nat (length (content fc)) :: int64) in
      if 0 \<le> sint sz then
        (case parseRange rangeReq sz of
           Inl e \<Rightarrow> Inr (httpError w (Error e) 416)
         | Inr parsed \<Rightarrow>
             (let err = (None :: error option);
                  ranges = (if sint sz < sint (sumRangesSize parsed) then [] else parsed)
              in
              if length ranges = 1 then
                (let ra = hd ranges;
                     sendSize = lengthR ra;
                     w = w\<lparr>wHeader := hSet (wHeader w) ''Content-Range'' (contentRange ra sz)\<rparr>
                 in sendResponse w req True 206 sendSize (Inr (readerCopyN (content fc) sendSize)))
              else if 1 < length ranges then
                (if list_ex (\<lambda>ra. sint sz < sint (start ra)) ranges then
                   (case err of
                      None \<Rightarrow> Inl NilDereference
                    | Some e \<Rightarrow> Inr (httpError w (Error e) 416))
                 else
                   (let sendSize = rangesMIMESize (rand env 0) ranges ctype sz;
                        boundary = randomBoundary (rand env 1);
                        w = w\<lparr>wHeader := hSet (wHeader w) ''Content-Type''
                                (''multipart/byteranges; boundary='' @ boundary)\<rparr>
                    in sendResponse w req True 206 sendSize
                         (pipeCopyN (producer boundary False ranges ctype (content fc) sz) sendSize)))
              else sendResponse w req True 200 sz (Inr (readerCopyN (content fc) sz))))
      else sendResponse w req False 200 sz (Inr (readerCopyN (content fc) sz)))"

text \<open>\<^verbatim>\<open>ServeHTTP\<close> from the call of \<^verbatim>\<open>checkETag\<close> on.\<close>

definition serveChecked ::
  "world \<Rightarrow> responseWriter \<Rightarrow> request \<Rightarrow> string \<Rightarrow> filecontent \<Rightarrow> panic + responseWriter" where
  "serveChecked env w req upath fc =
     (case checkETag w req of
        (w, rangeReq, done) \<Rightarrow>
          if done then Inr w
          else (case resolveContentType env w upath fc of
                  Inl p \<Rightarrow> Inl p
                | Inr ctype \<Rightarrow> serveContent env w req fc ctype rangeReq))"

definition ServeHTTP ::
  "world \<Rightarrow> memory \<Rightarrow> ZipAssets \<Rightarrow> responseWriter \<Rightarrow> request \<Rightarrow> panic + responseWriter" where
  "ServeHTTP env m za rw req =
     (let upath = URLPath req;
          upath = (if HasPrefix upath ''/'' then drop 1 upath else upath)
      in case files za upath of
           None \<Rightarrow> Inr (NotFound rw)
         | Some a \<Rightarrow>
             (let fc = cells m a in
              case checkLastModified env rw req (lastModified fc) of
                (rw, done) \<Rightarrow>
                  if done then Inr rw else serveChecked env rw req upath fc))"

subsection \<open>Loading an archive\<close>

text \<open>
  \<^verbatim>\<open>openTar\<close> declares one variable \<^verbatim>\<open>fc\<close> before its loop and stores \<^verbatim>\<open>&fc\<close> in the
  map at every turn: \<open>fc\<close> below is the address of that variable.  The result \<^verbatim>\<open>err\<close>
  is a named result, assigned by \<^verbatim>\<open>hdr, err = tr.Next()\<close>, so it is what the function
  returns after \<^verbatim>\<open>break\<close> too.  \<^verbatim>\<open>fc.content, err = ioutil.ReadAll(tr)\<close> assigns the
  bytes read even when it fails.
\<close>

fun openTarLoop ::
  "addr \<Rightarrow> tarReader \<Rightarrow> ZipAssets \<Rightarrow> memory \<Rightarrow> error option \<times> ZipAssets \<times> memory" where
  "openTarLoop fc [] za m = (Some EOF, za, m)"
| "openTarLoop fc (Inl e # tr) za m = (Some e, za, m)"
| "openTarLoop fc (Inr (hdr, (b, rerr)) # tr) za m =
     (let m = m\<lparr>cells := (cells m)(fc := (cells m fc)\<lparr>content := b\<rparr>)\<rparr> in
      case rerr of
        Some e \<Rightarrow> (Some e, za, m)
      | None \<Rightarrow>
          (let m = m\<lparr>cells := (cells m)(fc := (cells m fc)\<lparr>name := hName hdr\<rparr>)\<rparr>;
               m = m\<lparr>cells := (cells m)(fc := (cells m fc)\<lparr>lastModified := hModTime hdr\<rparr>)\<rparr>;
               m = m\<lparr>cells := (cells m)(fc := (cells m fc)\<lparr>isDir := hIsDir hdr\<rparr>)\<rparr>;
               za = za\<lparr>files := (files za)(hName hdr \<mapsto> fc)\<rparr>
           in openTarLoop fc tr za m))"

definition openTar :: "ZipAssets \<Rightarrow> tarReader \<Rightarrow> memory \<Rightarrow> error option \<times> ZipAssets \<times> memory" where
  "openTar za tr m = (case alloc m of (fc, m) \<Rightarrow> openTarLoop fc tr za m)"

definition openTarGz :: "world \<Rightarrow> ZipAssets \<Rightarrow> memory \<Rightarrow> error option \<times> ZipAssets \<times> memory" where
  "openTarGz env za m =
     (case OpenGzipTar env (path za) of
        Inl e \<Rightarrow> (Some e, za, m)
      | Inr tr \<Rightarrow> openTar za tr m)"

definition openTarBz2 :: "world \<Rightarrow> ZipAssets \<Rightarrow> memory \<Rightarrow> error option \<times> ZipAssets \<times> memory" where
  "openTarBz2 env za m =
     (case OpenBzip2Tar env (path za) of
        Inl e \<Rightarrow> (Some e, za, m)
      | Inr tr \<Rightarrow> openTar za tr m)"

text \<open>
  \<^verbatim>\<open>openZip\<close> has the same single variable \<^verbatim>\<open>fc\<close>; it leaves \<^verbatim>\<open>isDir\<close> alone.  (The
  line it prints for each member is not part of the model.)
\<close>

fun openZipLoop ::
  "addr \<Rightarrow> zipFile list \<Rightarrow> ZipAssets \<Rightarrow> memory \<Rightarrow> error option \<times> ZipAssets \<times> memory" where
  "openZipLoop fc [] za m = (None, za, m)"
| "openZipLoop fc (f # fs) za m =
     (case zOpen f of
        Inl e \<Rightarrow> (Some e, za, m)
      | Inr (b, rerr) \<Rightarrow>
          (case rerr of
             Some e \<Rightarrow> (Some e, za, m)
           | None \<Rightarrow>
               (let m = m\<lparr>cells := (cells m)(fc := (cells m fc)\<lparr>name := zName f\<rparr>)\<rparr>;
                    m = m\<lparr>cells := (cells m)(fc := (cells m fc)\<lparr>lastModified := zModTime f\<rparr>)\<rparr>;
                    m = m\<lparr>cells := (cells m)(fc := (cells m fc)\<lparr>content := b\<rparr>)\<rparr>;
                    za = za\<lparr>files := (files za)(zName f \<mapsto> fc)\<rparr>
                in openZipLoop fc fs za m)))"

definition openZip :: "world \<Rightarrow> ZipAssets \<Rightarrow> memory \<Rightarrow> error option \<times> ZipAssets \<times> memory" where
  "openZip env za m =
     (case alloc m of
        (fc, m) \<Rightarrow>
          (case OpenReader env (path za) of
             Inl e \<Rightarrow> (Some e, za, m)
           | Inr fs \<Rightarrow> openZipLoop fc fs za m))"

subsection \<open>Construction\<close>

text \<open>\<^verbatim>\<open>basename\<close>; \<^verbatim>\<open>strings.SplitN(fn, ".", 2)[0]\<close> is the part of \<open>fn\<close> before its first dot.\<close>

definition basename :: "world \<Rightarrow> string \<Rightarrow> string" where
  "basename env pathname =
     (let dir = Dir env pathname;
          fn = Base env pathname
      in Join env dir (takeWhile (\<lambda>c. c \<noteq> CHR ''.'') fn))"

text \<open>
  The variadic \<^verbatim>\<open>args ...interface{}\<close>: only whether the first one is a \<^verbatim>\<open>bool\<close>, and
  which, is looked at.  The handler returned is the file server of a directory or the
  pointer \<open>za\<close>, given here by the value it points to.
\<close>

datatype arg = BoolArg bool | OtherArg

datatype handler = FileServer string | Assets ZipAssets

definition NewZipAssets ::
  "world \<Rightarrow> memory \<Rightarrow> string \<Rightarrow> arg list \<Rightarrow> handler \<times> error option \<times> memory" where
  "NewZipAssets env m pathname args =
     (if args \<noteq> [] \<and> (case hd args of BoolArg debug \<Rightarrow> debug | OtherArg \<Rightarrow> False)
      then (FileServer (basename env pathname), None, m)
      else
        (let za = \<lparr>path = pathname, files = Map.empty\<rparr>;
             lowerPath = ToLower env pathname
         in case (if HasSuffix lowerPath ''.zip'' then openZip env za m
                  else if HasSuffix lowerPath ''.tar.gz'' then openTarGz env za m
                  else if HasSuffix lowerPath ''.tar.bz2'' then openTarBz2 env za m
                  else (None, za, m)) of
              (err, za, m) \<Rightarrow>
                if err \<noteq> None then (FileServer (basename env pathname), err, m)
                else (Assets za, err, m)))"

subsection \<open>A world to run the package in\<close>

text \<open>
  One archive with the two members \<^verbatim>\<open>a.txt\<close> and \<^verbatim>\<open>dir/b.bin\<close>, reachable in each of
  the three formats, and a page \<^verbatim>\<open>index.html\<close> of ten bytes in an archive of its own.
  The times \<open>T1\<close> and \<open>T2\<close> are 2001-09-09 01:46:40 UTC and the same hour a day later,
  in nanoseconds since the zero time.
  The library functions are given on the inputs used below: lower-casing of ASCII
  letters, the \<^verbatim>\<open>path\<close> functions as they are on a file name without a slash, a few
  entries of the built-in table of \<^verbatim>\<open>mime\<close>, and the HTTP dates around \<open>T1\<close>.
\<close>

definition T1 :: time where
  "T1 = 63135596800000000000"

definition T2 :: time where
  "T2 = 63135683200000000000"

definition bBin :: bytes where
  "bBin = [CHR 0x00, CHR 0xFF, CHR 0x10, CHR 0x80]"

definition exampleZip :: "zipFile list" where
  "exampleZip =
     [\<lparr>zName = ''a.txt'', zModTime = T1, zOpen = Inr (''hello'', None)\<rparr>,
      \<lparr>zName = ''dir/b.bin'', zModTime = T2, zOpen = Inr (bBin, None)\<rparr>]"

definition exampleTar :: tarReader where
  "exampleTar =
     [Inr (\<lparr>hName = ''a.txt'', hModTime = T1, hIsDir = False\<rparr>, (''hello'', None)),
      Inr (\<lparr>hName = ''dir/b.bin'', hModTime = T2, hIsDir = False\<rparr>, (bBin, None))]"

definition asciiLower :: "char \<Rightarrow> char" where
  "asciiLower c =
     (case map_of (zip ''ABCDEFGHIJKLMNOPQRSTUVWXYZ'' ''abcdefghijklmnopqrstuvwxyz'') c of
        None \<Rightarrow> c
      | Some l \<Rightarrow> l)"

definition exampleWorld :: world where
  "exampleWorld =
     \<lparr>OpenReader = (\<lambda>p. if p = ''assets.zip'' \<or> p = ''ASSETS.ZIP'' then Inr exampleZip
                        else if p = ''site.zip'' then
                          Inr [\<lparr>zName = ''index.html'', zModTime = T1, zOpen = Inr (''0123456789'', None)\<rparr>,
                               \<lparr>zName = ''README'', zModTime = T1, zOpen = Inr (''0123456789'', None)\<rparr>]
                        else Inl (ErrorString ''no such file or directory'')),
      OpenGzipTar = (\<lambda>p. if p = ''assets.tar.gz'' then Inr exampleTar
                         else Inl (ErrorString ''no such file or directory'')),
      OpenBzip2Tar = (\<lambda>p. if p = ''assets.tar.bz2'' then Inr exampleTar
                          else Inl (ErrorString ''no such file or directory'')),
      ToLower = map asciiLower,
      Dir = (\<lambda>p. ''.''),
      Base = (\<lambda>p. p),
      Join = (\<lambda>d f. f),
      TypeByExtension = (\<lambda>e. if e = ''.html'' \<or> e = ''.htm'' then ''text/html; charset=utf-8''
                             else if e = ''.css'' then ''text/css; charset=utf-8''
                             else if e = ''.png'' then ''image/png''
                             else []),
      DetectContentType = (\<lambda>b. if b = [] then ''text/plain; charset=utf-8''
                               else ''application/octet-stream''),
      ParseTime = (\<lambda>s. if s = ''Sun, 09 Sep 2001 01:46:39 GMT'' then Some 63135596799000000000
                       else if s = ''Sun, 09 Sep 2001 01:46:40 GMT'' then Some 63135596800000000000
                       else if s = ''Sun, 09 Sep 2001 01:46:41 GMT'' then Some 63135596801000000000
                       else None),
      FormatTime = (\<lambda>t. if t = T1 then ''Sun, 09 Sep 2001 01:46:40 GMT''
                        else if t = T2 then ''Mon, 10 Sep 2001 01:46:40 GMT''
                        else []),
      rand = (\<lambda>k i. CHR 0x00)\<rparr>"

definition emptyMemory :: memory where
  "emptyMemory = \<lparr>cells = (\<lambda>a. zeroFilecontent), unused = 0\<rparr>"

definition emptyWriter :: responseWriter where
  "emptyWriter = \<lparr>wHeader = Map.empty, wStatus = None, wBody = []\<rparr>"

text \<open>
  The store that \<^verbatim>\<open>NewZipAssets\<close> builds from \<^verbatim>\<open>site.zip\<close> (lemma \<open>site_loaded\<close>
  below): both keys hold the address 0.
\<close>

definition siteAssets :: ZipAssets where
  "siteAssets = \<lparr>path = ''site.zip'', files = [''index.html'' \<mapsto> 0, ''README'' \<mapsto> 0]\<rparr>"

definition siteMemory :: memory where
  "siteMemory =
     \<lparr>cells = (\<lambda>a. zeroFilecontent)
        (0 := \<lparr>name = ''README'', isDir = False, lastModified = T1, content = ''0123456789''\<rparr>),
      unused = 1\<rparr>"

text \<open>A \<^verbatim>\<open>GET\<close> request for \<open>p\<close> with the header lines \<open>hs\<close>.\<close>

definition getRequest :: "string \<Rightarrow> (string \<times> string) list \<Rightarrow> request" where
  "getRequest p hs = \<lparr>Method = ''GET'', URLPath = p, Header = map_of (map (\<lambda>(k, v). (k, [v])) hs)\<rparr>"

text \<open>A writer on which a wrapping handler has set an entity tag and a content type.\<close>

definition taggedWriter :: responseWriter where
  "taggedWriter = \<lparr>wHeader = [''Etag'' \<mapsto> [''v1''], ''Content-Type'' \<mapsto> [''text/html'']],
                    wStatus = None, wBody = []\<rparr>"

text \<open>A writer on which a wrapping handler has announced a content encoding.\<close>

definition encodedWriter :: responseWriter where
  "encodedWriter = \<lparr>wHeader = [''Content-Encoding'' \<mapsto> [''gzip'']], wStatus = None, wBody = []\<rparr>"

text \<open>The decimal digits, for the lemmas on \<open>showNat\<close>.\<close>

definition isDigit :: "char \<Rightarrow> bool" where
  "isDigit c = (c \<in> set ''0123456789'')"

lemmas parse_eval = parseRange_def parseRangeStep_def Let_def ParseInt_def digitVal_def
  TrimSpace_def trimLeft.simps trimLeftRev.simps asciiSpace_def space2_def space3_def
  Index_def Split_def HasPrefix_def

lemmas load_eval = NewZipAssets_def openZip_def openTarGz_def openTarBz2_def openTar_def
  alloc_def exampleWorld_def exampleZip_def exampleTar_def emptyMemory_def HasSuffix_def
  asciiLower_def

lemmas serve_eval = ServeHTTP_def serveChecked_def serveContent_def sendResponse_def
  resolveContentType_def checkETag_def checkLastModified_def hGet_def hSet_def hDel_def
  WriteHeader_def Write_def httpError_def NotFound_def Ext_def contentRange_def FormatInt_def
  showNat.simps digitChar_def readerCopyN_def pipeCopyN_def sumRangesSize_def getRequest_def
  emptyWriter_def T1_def T2_def second_def

section \<open>The range parser on concrete headers\<close>

text \<open>
  C5: the six vectors of the range parser.  Against a resource of 10 bytes,
  \<^verbatim>\<open>bytes=0-4\<close> is the range (0, 5), \<^verbatim>\<open>bytes=-5\<close> and \<^verbatim>\<open>bytes=5-\<close> are the
  range (5, 5), \<^verbatim>\<open>bytes=0-0,2-2\<close> is the two ranges (0, 1) and (2, 1), and both
  \<^verbatim>\<open>foo=0-1\<close> and \<^verbatim>\<open>bytes=20-30\<close> are errors.
\<close>

theorem parseRange_vectors:
  "parseRange ''bytes=0-4'' 10 = Inr [\<lparr>start = 0, lengthR = 5\<rparr>]
 \<and> parseRange ''bytes=-5'' 10 = Inr [\<lparr>start = 5, lengthR = 5\<rparr>]
 \<and> parseRange ''bytes=5-'' 10 = Inr [\<lparr>start = 5, lengthR = 5\<rparr>]
 \<and> parseRange ''bytes=0-0,2-2'' 10 = Inr [\<lparr>start = 0, lengthR = 1\<rparr>, \<lparr>start = 2, lengthR = 1\<rparr>]
 \<and> parseRange ''foo=0-1'' 10 = Inl (ErrorString ''invalid range'')
 \<and> parseRange ''bytes=20-30'' 10 = Inl (ErrorString ''invalid range'')"
  by (simp add: parse_eval)

text \<open>
  C6: a suffix range with a negative number is accepted.  The suffix branch of
  \<^verbatim>\<open>parseRange\<close> does not test \<open>i < 0\<close>, which the branch for a given start does: on
  \<^verbatim>\<open>bytes=--5\<close> and a resource of 10 bytes the parser returns, without an error, the
  one range of start 15 and length -5, a start past the end of the resource and a
  negative length.
\<close>

theorem parseRange_negative_suffix:
  "parseRange ''bytes=--5'' 10 = Inr [\<lparr>start = 15, lengthR = - 5\<rparr>]
 \<and> sint (- 5 :: int64) < 0 \<and> sint (10 :: int64) < sint (15 :: int64)"
  by (simp add: parse_eval)

section \<open>Loading\<close>

text \<open>
  C1: every key of the store points to the same entry.  Loading the zip archive with
  the members \<^verbatim>\<open>a.txt\<close> (content "hello", time \<open>T1\<close>) and \<^verbatim>\<open>dir/b.bin\<close> (content
  \<open>bBin\<close>, time \<open>T2\<close>) succeeds and gives a store with exactly these two keys, but
  both keys hold the address of the one variable \<^verbatim>\<open>fc\<close>: looking up \<^verbatim>\<open>a.txt\<close> yields
  the name, the content and the time of \<^verbatim>\<open>dir/b.bin\<close>, the member read last.  Loading
  the same members from a tar archive gives the same aliased map and, in addition,
  returns the error \<^verbatim>\<open>io.EOF\<close>.
\<close>

theorem load_entries_aliased:
  "(case NewZipAssets exampleWorld emptyMemory ''assets.zip'' [] of
      (Assets za, err, m) \<Rightarrow>
        err = None
      \<and> dom (files za) = {''a.txt'', ''dir/b.bin''}
      \<and> files za ''a.txt'' = files za ''dir/b.bin''
      \<and> map_option (\<lambda>a. name (cells m a)) (files za ''a.txt'') = Some ''dir/b.bin''
      \<and> map_option (\<lambda>a. content (cells m a)) (files za ''a.txt'') = Some bBin
      \<and> map_option (\<lambda>a. lastModified (cells m a)) (files za ''a.txt'') = Some T2
      \<and> bBin \<noteq> ''hello'' \<and> T2 \<noteq> T1
    | (FileServer d, err, m) \<Rightarrow> False)
 \<and> (case openTar \<lparr>path = ''assets.tar'', files = Map.empty\<rparr> exampleTar emptyMemory of
      (err, za, m) \<Rightarrow>
        err = Some EOF
      \<and> files za ''a.txt'' = files za ''dir/b.bin''
      \<and> map_option (\<lambda>a. content (cells m a)) (files za ''a.txt'') = Some bBin)"
  by (auto simp add: load_eval Let_def bBin_def T1_def T2_def second_def)

section \<open>The handler on concrete requests\<close>

text \<open>
  C2: the body of a single-range response starts at offset 0.  The store is loaded
  from an archive whose member \<^verbatim>\<open>index.html\<close> is the ten bytes \<^verbatim>\<open>0123456789\<close>.  The
  request \<^verbatim>\<open>GET /index.html\<close> with \<^verbatim>\<open>Range: bytes=5-9\<close> is answered with status 206,
  \<^verbatim>\<open>Content-Range: bytes 5-9/10\<close> and \<^verbatim>\<open>Content-Length: 5\<close>, and with the body
  \<^verbatim>\<open>01234\<close>, the first five bytes of the content, not the bytes 5 to 9.
\<close>

theorem single_range_body_from_offset_zero:
  "(case NewZipAssets exampleWorld emptyMemory ''site.zip'' [] of
      (Assets za, err, m) \<Rightarrow>
        (case ServeHTTP exampleWorld m za emptyWriter
                (getRequest ''/index.html'' [(''Range'', ''bytes=5-9'')]) of
           Inr w \<Rightarrow>
             wStatus w = Some 206
           \<and> hGet (wHeader w) ''Content-Range'' = ''bytes 5-9/10''
           \<and> hGet (wHeader w) ''Content-Length'' = ''5''
           \<and> wBody w = ''01234''
         | Inl p \<Rightarrow> False)
    | (FileServer d, err, m) \<Rightarrow> False)"
  by (simp add: load_eval serve_eval parse_eval)

text \<open>
  C4: two requests on which the handler panics.  On the store of the same archive,
  \<^verbatim>\<open>GET /index.html\<close> with \<^verbatim>\<open>Range: bytes=--5,0-1\<close> parses into two ranges, the first
  with a start past the size, and the loop over the ranges then calls \<^verbatim>\<open>err.Error()\<close>
  on the nil error; and \<^verbatim>\<open>GET /README\<close>, a non-empty member whose name has no
  extension, with no \<^verbatim>\<open>Content-Type\<close> set beforehand, reaches \<^verbatim>\<open>buf[:n]\<close> on the nil
  slice \<^verbatim>\<open>buf\<close> with \<open>n = 10\<close>.
\<close>

theorem ServeHTTP_panics:
  "(case NewZipAssets exampleWorld emptyMemory ''site.zip'' [] of
      (Assets za, err, m) \<Rightarrow>
        ServeHTTP exampleWorld m za emptyWriter
          (getRequest ''/index.html'' [(''Range'', ''bytes=--5,0-1'')]) = Inl NilDereference
      \<and> ServeHTTP exampleWorld m za emptyWriter (getRequest ''/README'' []) = Inl SliceBounds
    | (FileServer d, err, m) \<Rightarrow> False)"
  by (simp add: load_eval serve_eval parse_eval)

section \<open>The size of a multipart body\<close>

lemma length_hexByte: "length (hexByte c) = 2"
  by (simp add: hexByte_def)

lemma length_concat_const:
  "(\<And>x. x \<in> set xs \<Longrightarrow> length (f x) = k) \<Longrightarrow> length (concat (map f xs)) = k * length xs"
  by (induction xs) simp_all

lemma length_randomBoundary: "length (randomBoundary rnd) = 60"
  unfolding randomBoundary_def
  by (subst length_concat_const [where k = 2]) (simp_all add: length_hexByte)

lemma length_CreatePart:
  "length b1 = length b2 \<Longrightarrow> length (CreatePart b1 lp h) = length (CreatePart b2 lp h)"
  by (simp add: CreatePart_def)

lemma length_Close: "length b1 = length b2 \<Longrightarrow> length (Close b1) = length (Close b2)"
  by (simp add: Close_def)

lemma of_nat_nat_sint: "0 \<le> sint (n :: int64) \<Longrightarrow> of_nat (nat (sint n)) = n"
  by (simp add: of_nat_nat)

lemma producer_counted:
  assumes len: "length b1 = length b2"
      and sz: "sint sz = int (length cont)"
      and valid: "\<forall>r \<in> set rs. 0 \<le> sint (start r) \<and> 0 \<le> sint (lengthR r)
                   \<and> sint (start r) + sint (lengthR r) \<le> sint sz"
  shows "snd (producer b2 lp rs ct cont sz) = Finished
       \<and> (case rangesMIMELoop b1 lp rs ct sz w e of
            (w', e') \<Rightarrow> e' + (w' + of_nat (length (Close b1)))
               = w + e + of_nat (length (fst (producer b2 lp rs ct cont sz))))"
  using valid
proof (induction rs arbitrary: lp w e)
  case Nil
  show ?case using length_Close [OF len] by simp
next
  case (Cons ra ras)
  let ?part = "CreatePart b2 lp (mimeHeader ra ct sz)"
  let ?src = "take (nat (sint sz) - nat (sint (start ra))) (drop (nat (sint (start ra))) cont)"
  let ?copied = "if sint (lengthR ra) \<le> 0 then [] else take (nat (sint (lengthR ra))) ?src"
  from Cons.prems have r: "0 \<le> sint (start ra)" "0 \<le> sint (lengthR ra)"
      "sint (start ra) + sint (lengthR ra) \<le> sint sz"
    by simp_all
  from r sz have src: "length ?src = nat (sint sz) - nat (sint (start ra))"
    by simp
  from r src have enough: "nat (sint (lengthR ra)) \<le> length ?src"
    by linarith
  have copied: "length ?copied = nat (sint (lengthR ra))"
  proof (cases "sint (lengthR ra) \<le> 0")
    case True
    with r have "sint (lengthR ra) = 0" by linarith
    then show ?thesis by simp
  next
    case False
    then have "length ?copied = min (length ?src) (nat (sint (lengthR ra)))"
      by (simp only: if_False length_take)
    with enough show ?thesis by linarith
  qed
  have ok: "0 \<le> sint (start ra) \<and> sint (start ra) \<le> sint sz \<and> sint sz \<le> int (length cont)"
    using r sz by simp
  have noEOF: "\<not> (0 < sint (lengthR ra) \<and> int (length ?src) < sint (lengthR ra))"
    using enough by linarith
  obtain rest oc where p: "producer b2 True ras ct cont sz = (rest, oc)"
    by (cases "producer b2 True ras ct cont sz") auto
  have step: "producer b2 lp (ra # ras) ct cont sz = (?part @ ?copied @ rest, oc)"
    by (simp only: producer.simps Let_def ok noEOF p simp_thms if_False if_True prod.case)
  from Cons.prems have "\<forall>r \<in> set ras. 0 \<le> sint (start r) \<and> 0 \<le> sint (lengthR r)
                   \<and> sint (start r) + sint (lengthR r) \<le> sint sz"
    by simp
  from Cons.IH [OF this, of True
      "w + of_nat (length (CreatePart b1 lp (mimeHeader ra ct sz)))" "e + lengthR ra"] p
  have ih: "oc = Finished"
    "(case rangesMIMELoop b1 True ras ct sz
             (w + of_nat (length (CreatePart b1 lp (mimeHeader ra ct sz)))) (e + lengthR ra) of
        (w', e') \<Rightarrow> e' + (w' + of_nat (length (Close b1)))
          = w + of_nat (length (CreatePart b1 lp (mimeHeader ra ct sz))) + (e + lengthR ra)
              + of_nat (length rest))"
    by simp_all
  have parts: "length (CreatePart b1 lp (mimeHeader ra ct sz)) = length ?part"
    by (rule length_CreatePart [OF len])
  have "(of_nat (length ?copied) :: int64) = lengthR ra"
    using copied r by (simp only: of_nat_nat_sint)
  then have total: "(of_nat (length (?part @ ?copied @ rest)) :: int64)
      = of_nat (length ?part) + lengthR ra + of_nat (length rest)"
    by (simp only: length_append of_nat_add) simp
  show ?case
    using ih parts total unfolding step
    by (auto simp add: algebra_simps split: prod.splits)
qed

lemma sint_of_nat_small: "n < 2 ^ 63 \<Longrightarrow> sint (of_nat n :: int64) = int n"
proof -
  assume "n < 2 ^ 63"
  then have "int n < 2 ^ 63" by (metis of_nat_less_iff of_nat_numeral of_nat_power)
  then show ?thesis
    by (simp add: signed_of_nat signed_take_bit_int_eq_self)
qed

lemmas mime_eval = rangesMIMESize_def length_randomBoundary CreatePart_def Close_def
  mimeHeader_def headerLines_def CRLF_def contentRange_def FormatInt_def showNat.simps
  digitChar_def Let_def

text \<open>
  What \<^verbatim>\<open>parseRange\<close> returns: a range that starts inside the resource has a length
  of at least 0.
\<close>

lemma sint_bounds64: "- (2 ^ 63) \<le> sint (a :: int64) \<and> sint a < 2 ^ 63"
  using sint_ge [of a] sint_lt [of a] by simp

lemma sint_sub_exact:
  "- (2 ^ 63) \<le> sint a - sint b \<Longrightarrow> sint a - sint b < 2 ^ 63 \<Longrightarrow>
     sint (a - b :: int64) = sint a - sint b"
  by (simp add: sint_word_diff signed_take_bit_int_eq_self)

lemma sint_add_exact:
  "- (2 ^ 63) \<le> sint a + sint b \<Longrightarrow> sint a + sint b < 2 ^ 63 \<Longrightarrow>
     sint (a + b :: int64) = sint a + sint b"
  by (simp add: sint_word_add signed_take_bit_int_eq_self)

lemma sint_sub_wrapped:
  "2 ^ 63 \<le> sint a - sint b \<Longrightarrow> sint (a - b :: int64) < 0"
proof -
  assume h: "2 ^ 63 \<le> sint a - sint b"
  have "sint (a - b) \<le> sint a - sint b - 2 ^ 64"
    using signed_take_bit_int_less_eq [of 63 "sint a - sint b"] h
    by (simp add: sint_word_diff)
  moreover have "sint a - sint b < 2 ^ 64"
    using sint_bounds64 [of a] sint_bounds64 [of b] by simp
  ultimately show ?thesis by simp
qed

text \<open>The suffix form: the length is the clamped number itself.\<close>

lemma suffix_range:
  assumes sz: "0 \<le> sint (sz :: int64)"
      and lo: "0 \<le> sint (sz - i)" and hi: "sint (sz - i) \<le> sint sz"
      and le: "\<not> sint sz < sint i"
  shows "0 \<le> sint i"
proof -
  show "0 \<le> sint i"
  proof (rule ccontr)
    assume "\<not> 0 \<le> sint i"
    then have neg: "sint i < 0" by simp
    show False
    proof (cases "sint sz - sint i < 2 ^ 63")
      case True
      with neg sz have "sint (sz - i) = sint sz - sint i"
        by (intro sint_sub_exact) simp_all
      with neg hi show False by simp
    next
      case False
      then have "sint (sz - i) < 0" by (intro sint_sub_wrapped) simp
      with lo show False by simp
    qed
  qed
qed

lemma parseRangeStep_length:
  assumes step: "parseRangeStep sz ra = Inr (Some r)"
      and sz: "0 \<le> sint sz"
      and lo: "0 \<le> sint (start r)" and hi: "sint (start r) \<le> sint sz"
  shows "0 \<le> sint (lengthR r)"
proof -
  let ?ra = "TrimSpace ra"
  let ?i = "Index ?ra (CHR ''-'')"
  let ?s = "TrimSpace (take (nat ?i) ?ra)"
  let ?e = "TrimSpace (drop (nat ?i + 1) ?ra)"
  from step have ne: "?ra \<noteq> []" "\<not> ?i < 0"
    by (auto simp add: parseRangeStep_def Let_def split: if_splits)
  show ?thesis
  proof (cases "?s = []")
    case True
    with step ne obtain i where i: "ParseInt ?e = Some i"
      and r: "r = \<lparr>start = sz - (if sint sz < sint i then sz else i),
                   lengthR = sz - (sz - (if sint sz < sint i then sz else i))\<rparr>"
      by (auto simp add: parseRangeStep_def Let_def split: if_splits option.splits)
    show ?thesis
    proof (cases "sint sz < sint i")
      case True
      with r sz show ?thesis by simp
    next
      case False
      with r lo hi sz suffix_range [of sz i] show ?thesis by simp
    qed
  next
    case False
    with step ne obtain i where i: "ParseInt ?s = Some i"
      and ib: "\<not> sint sz < sint i" "\<not> sint i < 0"
      by (auto simp add: parseRangeStep_def Let_def split: if_splits option.splits)
    have d: "sint (sz - i) = sint sz - sint i"
      using ib sz sint_bounds64 [of sz] by (intro sint_sub_exact) simp_all
    show ?thesis
    proof (cases "?e = []")
      case True
      with step ne False i ib have "r = \<lparr>start = i, lengthR = sz - i\<rparr>"
        by (auto simp add: parseRangeStep_def Let_def split: if_splits option.splits)
      with d ib show ?thesis by simp
    next
      case e: False
      with step ne False i ib obtain j where j: "ParseInt ?e = Some j"
        and jb: "\<not> sint j < sint i"
        and r: "r = \<lparr>start = i, lengthR = (if sint sz \<le> sint j then sz - 1 else j) - i + 1\<rparr>"
        by (auto simp add: parseRangeStep_def Let_def split: if_splits option.splits)
      show ?thesis
      proof (cases "sint sz \<le> sint j")
        case True
        have "sz - 1 - i + 1 = sz - i" by simp
        with True r d ib show ?thesis by simp
      next
        case False
        have ji: "sint (j - i) = sint j - sint i"
          using False jb ib sz sint_bounds64 [of sz] by (intro sint_sub_exact) simp_all
        have "sint (j - i + 1) = sint (j - i) + sint (1 :: int64)"
          using ji False jb ib sint_bounds64 [of sz] by (intro sint_add_exact) simp_all
        with ji jb False r show ?thesis by simp
      qed
    qed
  qed
qed

lemma parseRangeLoop_lengths:
  assumes "parseRangeLoop sz pieces acc = Inr rs"
      and "0 \<le> sint sz"
      and "\<forall>r \<in> set acc. 0 \<le> sint (start r) \<and> sint (start r) \<le> sint sz \<longrightarrow> 0 \<le> sint (lengthR r)"
  shows "\<forall>r \<in> set rs. 0 \<le> sint (start r) \<and> sint (start r) \<le> sint sz \<longrightarrow> 0 \<le> sint (lengthR r)"
  using assms
proof (induction pieces arbitrary: acc)
  case Nil
  then show ?case by simp
next
  case (Cons ra ras)
  show ?case
  proof (cases "parseRangeStep sz ra")
    case (Inl e)
    with Cons.prems show ?thesis by simp
  next
    case (Inr o1)
    show ?thesis
    proof (cases o1)
      case None
      with Inr Cons show ?thesis by simp
    next
      case (Some r)
      with Inr Cons.prems have run: "parseRangeLoop sz ras (acc @ [r]) = Inr rs" by simp
      have "\<forall>q \<in> set (acc @ [r]). 0 \<le> sint (start q) \<and> sint (start q) \<le> sint sz \<longrightarrow> 0 \<le> sint (lengthR q)"
        using Cons.prems(3) parseRangeStep_length [of sz ra r] Inr Some Cons.prems(2) by auto
      from Cons.IH [OF run Cons.prems(2) this] show ?thesis .
    qed
  qed
qed

lemma parseRange_lengths:
  assumes "parseRange s sz = Inr rs" and "0 \<le> sint sz"
  shows "\<forall>r \<in> set rs. 0 \<le> sint (start r) \<and> sint (start r) \<le> sint sz \<longrightarrow> 0 \<le> sint (lengthR r)"
proof (cases "s = [] \<or> \<not> HasPrefix s ''bytes=''")
  case True
  with assms(1) show ?thesis by (auto simp add: parseRange_def split: if_splits)
next
  case False
  with assms(1) have "parseRangeLoop sz (Split (drop (length ''bytes='') s) (CHR '','')) [] = Inr rs"
    by (simp add: parseRange_def)
  from parseRangeLoop_lengths [OF this assms(2)] show ?thesis by simp
qed

text \<open>
  C3: the size estimate is the number of bytes written.  For every list of ranges each
  with \<open>0 \<le> start\<close> and \<open>start + length \<le> size\<close>, every content type and every content
  of \<open>size\<close> bytes, where the ranges are byte ranges of the data model (\<open>0 \<le> length\<close>)
  or the ranges \<^verbatim>\<open>ServeHTTP\<close> calls \<^verbatim>\<open>rangesMIMESize\<close> with (returned by \<^verbatim>\<open>parseRange\<close>
  for this size, none with a start past the size, which the loop before the call
  checks), the goroutine writes all its parts and finishes, and \<^verbatim>\<open>rangesMIMESize\<close>
  returns the number of bytes it writes: as an \<^verbatim>\<open>int64\<close> in any case, and so exactly
  that number whenever it is below \<open>2^63\<close>.  The two multipart writers have
  boundaries of their own, \<open>rnd1\<close> and \<open>rnd2\<close> being any two sources of random bytes.
\<close>

theorem rangesMIMESize_counts_producer:
  assumes sz: "sint sz = int (length cont)"
      and valid: "\<forall>r \<in> set rs. 0 \<le> sint (start r) \<and> sint (start r) + sint (lengthR r) \<le> sint sz"
      and ranges: "(\<forall>r \<in> set rs. 0 \<le> sint (lengthR r))
                 \<or> (\<exists>s. parseRange s sz = Inr rs \<and> \<not> list_ex (\<lambda>ra. sint sz < sint (start ra)) rs)"
  shows "snd (producer (randomBoundary rnd2) False rs ct cont sz) = Finished
       \<and> rangesMIMESize rnd1 rs ct sz
           = of_nat (length (fst (producer (randomBoundary rnd2) False rs ct cont sz)))
       \<and> (length (fst (producer (randomBoundary rnd2) False rs ct cont sz)) < 2 ^ 63 \<longrightarrow>
            sint (rangesMIMESize rnd1 rs ct sz)
              = int (length (fst (producer (randomBoundary rnd2) False rs ct cont sz))))"
proof -
  have nn: "0 \<le> sint sz" using sz by simp
  have lens: "\<forall>r \<in> set rs. 0 \<le> sint (lengthR r)"
    using ranges
  proof
    assume "\<forall>r \<in> set rs. 0 \<le> sint (lengthR r)"
    then show ?thesis .
  next
    assume "\<exists>s. parseRange s sz = Inr rs \<and> \<not> list_ex (\<lambda>ra. sint sz < sint (start ra)) rs"
    then obtain s where p: "parseRange s sz = Inr rs"
      and g: "\<not> list_ex (\<lambda>ra. sint sz < sint (start ra)) rs"
      by blast
    from g have "\<forall>r \<in> set rs. sint (start r) \<le> sint sz"
      by (auto simp add: list_ex_iff)
    with parseRange_lengths [OF p nn] valid show ?thesis by blast
  qed
  with valid have all: "\<forall>r \<in> set rs. 0 \<le> sint (start r) \<and> 0 \<le> sint (lengthR r)
                   \<and> sint (start r) + sint (lengthR r) \<le> sint sz"
    by blast
  have len: "length (randomBoundary rnd1) = length (randomBoundary rnd2)"
    by (simp add: length_randomBoundary)
  from producer_counted [OF len sz all, of False ct 0 0]
  have fin: "snd (producer (randomBoundary rnd2) False rs ct cont sz) = Finished"
    and eq: "rangesMIMESize rnd1 rs ct sz
           = of_nat (length (fst (producer (randomBoundary rnd2) False rs ct cont sz)))"
    by (auto simp add: rangesMIMESize_def Let_def split: prod.splits)
  from eq have "length (fst (producer (randomBoundary rnd2) False rs ct cont sz)) < 2 ^ 63 \<longrightarrow>
            sint (rangesMIMESize rnd1 rs ct sz)
              = int (length (fst (producer (randomBoundary rnd2) False rs ct cont sz)))"
    by (simp add: sint_of_nat_small)
  with fin eq show ?thesis by blast
qed

theorem rangesMIMESize_counts_producer_witness:
  "parseRange ''bytes=0-0,8-9'' 10 = Inr [\<lparr>start = 0, lengthR = 1\<rparr>, \<lparr>start = 8, lengthR = 2\<rparr>]
 \<and> snd (producer (randomBoundary (rand exampleWorld 1)) False
       [\<lparr>start = 0, lengthR = 1\<rparr>, \<lparr>start = 8, lengthR = 2\<rparr>] ''text/html'' ''0123456789'' 10) = Finished
 \<and> sint (rangesMIMESize (rand exampleWorld 0)
       [\<lparr>start = 0, lengthR = 1\<rparr>, \<lparr>start = 8, lengthR = 2\<rparr>] ''text/html'' 10)
     = int (length (fst (producer (randomBoundary (rand exampleWorld 1)) False
       [\<lparr>start = 0, lengthR = 1\<rparr>, \<lparr>start = 8, lengthR = 2\<rparr>] ''text/html'' ''0123456789'' 10)))
 \<and> length (fst (producer (randomBoundary (rand exampleWorld 1)) False
       [\<lparr>start = 0, lengthR = 1\<rparr>, \<lparr>start = 8, lengthR = 2\<rparr>] ''text/html'' ''0123456789'' 10)) = 313"
proof -
  let ?rs = "[\<lparr>start = 0, lengthR = 1\<rparr>, \<lparr>start = 8, lengthR = 2\<rparr>] :: httpRange list"
  have sz: "sint (10 :: int64) = int (length ''0123456789'')" by simp
  have valid: "\<forall>r \<in> set ?rs. 0 \<le> sint (start r) \<and> sint (start r) + sint (lengthR r) \<le> sint (10 :: int64)"
    by simp
  have p: "parseRange ''bytes=0-0,8-9'' 10 = Inr ?rs"
    by (simp add: parse_eval)
  have g: "\<not> list_ex (\<lambda>ra. sint (10 :: int64) < sint (start ra)) ?rs"
    by simp
  from p g have ranges: "(\<forall>r \<in> set ?rs. 0 \<le> sint (lengthR r))
       \<or> (\<exists>s. parseRange s 10 = Inr ?rs \<and> \<not> list_ex (\<lambda>ra. sint (10 :: int64) < sint (start ra)) ?rs)"
    by blast
  have n: "length (fst (producer (randomBoundary (rand exampleWorld 1)) False ?rs
             ''text/html'' ''0123456789'' 10)) = 313"
    by (simp add: mime_eval)
  then have small: "length (fst (producer (randomBoundary (rand exampleWorld 1)) False ?rs
             ''text/html'' ''0123456789'' 10)) < 2 ^ 63"
    by simp
  from rangesMIMESize_counts_producer [OF sz valid ranges, of "rand exampleWorld 1" "''text/html''" "rand exampleWorld 0"]
    small n p
  show ?thesis by blast
qed

section \<open>Conditional requests\<close>

lemma site_loaded:
  "NewZipAssets exampleWorld emptyMemory ''site.zip'' [] = (Assets siteAssets, None, siteMemory)"
  by (simp add: load_eval Let_def siteAssets_def siteMemory_def zeroFilecontent_def)

lemma sendResponse_Method:
  "Method req' = Method req \<Longrightarrow> sendResponse w req' = sendResponse w req"
  by (intro ext) (simp add: sendResponse_def)

lemma serveContent_Method:
  assumes "Method req' = Method req"
  shows "serveContent env w req' fc ctype rr = serveContent env w req fc ctype rr"
  unfolding serveContent_def sendResponse_Method [OF assms] ..

lemma checkETag_no_range:
  assumes "hGet (Header req) ''If-Range'' \<noteq> []"
      and "hGet (Header req) ''If-Range'' \<noteq> hGet (wHeader w) ''Etag''"
  shows "checkETag w (req\<lparr>Header := hDel (Header req) ''Range''\<rparr>) = checkETag w req"
  using assms by (simp add: checkETag_def hGet_def hDel_def Let_def)

lemma serveChecked_no_range:
  assumes "hGet (Header req) ''If-Range'' \<noteq> []"
      and "hGet (Header req) ''If-Range'' \<noteq> hGet (wHeader w) ''Etag''"
  shows "serveChecked env w (req\<lparr>Header := hDel (Header req) ''Range''\<rparr>) upath fc
           = serveChecked env w req upath fc"
  unfolding serveChecked_def checkETag_no_range [OF assms]
  by (auto split: prod.splits sum.splits intro: serveContent_Method)

lemma checkLastModified_no_range:
  "checkLastModified env w (req\<lparr>Header := hDel (Header req) ''Range''\<rparr>) t = checkLastModified env w req t"
  by (simp add: checkLastModified_def hGet_def hDel_def)

lemma checkLastModified_Etag:
  "checkLastModified env w req t = (w', False) \<Longrightarrow> hGet (wHeader w') ''Etag'' = hGet (wHeader w) ''Etag''"
  by (auto simp add: checkLastModified_def hGet_def hSet_def Let_def split: if_splits)

lemma ServeHTTP_no_range:
  assumes "hGet (Header req) ''If-Range'' \<noteq> []"
      and "hGet (Header req) ''If-Range'' \<noteq> hGet (wHeader rw) ''Etag''"
  shows "ServeHTTP env m za rw (req\<lparr>Header := hDel (Header req) ''Range''\<rparr>) = ServeHTTP env m za rw req"
  using assms
  by (auto simp add: ServeHTTP_def Let_def checkLastModified_no_range serveChecked_no_range
        checkLastModified_Etag split: option.splits prod.splits)

lemma checkLastModified_done:
  "checkLastModified env w req t = (w', True) \<Longrightarrow> wStatus w = None \<Longrightarrow>
     wStatus w' = Some 304 \<and> wBody w' = wBody w \<and> wHeader w' ''Content-Type'' = None
       \<and> wHeader w' ''Content-Length'' = None"
  by (auto simp add: checkLastModified_def hDel_def WriteHeader_def Let_def split: if_splits)

lemma checkLastModified_not_done:
  "checkLastModified env w req t = (w', False) \<Longrightarrow> wStatus w' = wStatus w \<and> wBody w' = wBody w"
  by (auto simp add: checkLastModified_def Let_def split: if_splits)

lemma producer_no_panic:
  assumes sz: "sint sz = int (length cont)"
      and inres: "\<forall>r \<in> set rs. 0 \<le> sint (start r) \<and> sint (start r) \<le> sint sz"
  shows "snd (producer b lp rs ct cont sz) \<noteq> Panicked p"
  using inres
proof (induction rs arbitrary: lp)
  case Nil
  show ?case by simp
next
  case (Cons ra ras)
  then have ok: "0 \<le> sint (start ra) \<and> sint (start ra) \<le> sint sz \<and> sint sz \<le> int (length cont)"
    using sz by simp
  from Cons have ih: "snd (producer b True ras ct cont sz) \<noteq> Panicked p" by simp
  show ?case
    using ih
    by (simp only: producer.simps Let_def ok simp_thms if_False split: if_splits prod.splits)
       (auto split: if_splits prod.splits)
qed

lemma pipeCopyN_no_panic:
  "(\<And>p. snd pr \<noteq> Panicked p) \<Longrightarrow> \<exists>b. pipeCopyN pr n = Inr b"
  by (cases pr) (auto simp add: pipeCopyN_def split: outcome.splits)

lemma sendResponse_Inr:
  assumes "wStatus w = None"
  shows "\<exists>w'. sendResponse w req known code n (Inr b) = Inr w'
           \<and> wStatus w' = Some code
           \<and> wHeader w' ''Last-Modified'' = wHeader w ''Last-Modified''
           \<and> wBody w' = (if Method req \<noteq> ''HEAD'' then wBody w @ b else wBody w)"
  using assms by (simp add: sendResponse_def Let_def WriteHeader_def hSet_def)

lemma sendResponse_keeps:
  "sendResponse w req known code n c = Inr w' \<Longrightarrow>
     wHeader w' ''Last-Modified'' = wHeader w ''Last-Modified''"
  by (auto simp add: sendResponse_def Let_def WriteHeader_def hSet_def split: if_splits sum.splits)

lemma httpError_keeps:
  "wHeader (httpError w msg code) ''Last-Modified'' = wHeader w ''Last-Modified''"
  by (simp add: httpError_def Write_def WriteHeader_def hSet_def hDel_def Let_def)

lemma serveContent_keeps:
  assumes "serveContent env w req fc ctype rr = Inr w'"
  shows "wHeader w' ''Last-Modified'' = wHeader w ''Last-Modified''"
proof -
  have k: "\<And>w0 known code n c. wHeader w0 ''Last-Modified'' = wHeader w ''Last-Modified'' \<Longrightarrow>
      sendResponse w0 req known code n c = Inr w' \<Longrightarrow> wHeader w' ''Last-Modified'' = wHeader w ''Last-Modified''"
    using sendResponse_keeps by metis
  from assms show ?thesis
    unfolding serveContent_def Let_def
    by (auto simp add: httpError_keeps hSet_def split: if_splits sum.splits option.splits
          elim!: k [rotated])
qed

lemma checkETag_keeps:
  "checkETag w req = (w', rr, d) \<Longrightarrow> wHeader w' ''Last-Modified'' = wHeader w ''Last-Modified''"
  by (auto simp add: checkETag_def Let_def WriteHeader_def hDel_def split: if_splits)

lemma serveChecked_keeps:
  assumes "serveChecked env w req upath fc = Inr w'"
  shows "wHeader w' ''Last-Modified'' = wHeader w ''Last-Modified''"
proof -
  obtain w1 rr d where c: "checkETag w req = (w1, rr, d)"
    by (cases "checkETag w req") auto
  with assms show ?thesis
    using checkETag_keeps [OF c] serveContent_keeps [of env w1 req fc _ rr w']
    by (auto simp add: serveChecked_def split: if_splits sum.splits)
qed

lemma serveContent_served:
  assumes fresh: "wStatus w = None"
      and len: "length (content fc) < 2 ^ 63"
      and parsed: "parseRange rr (of_nat (length (content fc))) = Inr rs"
      and inres: "\<forall>r \<in> set rs. 0 \<le> sint (start r)
                    \<and> sint (start r) \<le> sint (of_nat (length (content fc)) :: int64)"
  shows "\<exists>w'. serveContent env w req fc ctype rr = Inr w'
          \<and> wStatus w' =
              Some (if sint (of_nat (length (content fc)) :: int64) < sint (sumRangesSize rs) \<or> rs = []
                    then 200 else 206)
          \<and> wHeader w' ''Last-Modified'' = wHeader w ''Last-Modified''
          \<and> ((sint (of_nat (length (content fc)) :: int64) < sint (sumRangesSize rs) \<or> rs = [])
               \<and> Method req \<noteq> ''HEAD'' \<longrightarrow> wBody w' = wBody w @ content fc)"
proof -
  let ?sz = "of_nat (length (content fc)) :: int64"
  let ?eff = "if sint ?sz < sint (sumRangesSize rs) then [] else rs"
  have s: "sint ?sz = int (length (content fc))"
    using len by (rule sint_of_nat_small)
  then have nn: "0 \<le> sint ?sz" by simp
  have full: "readerCopyN (content fc) ?sz = content fc"
    using s by (cases "content fc") (simp_all add: readerCopyN_def)
  consider (none) "?eff = []" | (one) "length ?eff = 1" | (many) "1 < length ?eff"
    by (cases ?eff) (auto simp add: Suc_lessI)
  then show ?thesis
  proof cases
    case none
    then have c: "sint ?sz < sint (sumRangesSize rs) \<or> rs = []"
      by (auto split: if_splits)
    from none have run: "serveContent env w req fc ctype rr =
        sendResponse w req True 200 ?sz (Inr (content fc))"
      unfolding serveContent_def Let_def parsed using nn by (simp add: full)
    from sendResponse_Inr [OF fresh, of req True 200 ?sz "content fc"] c show ?thesis
      unfolding run by auto
  next
    case one
    then have c: "\<not> (sint ?sz < sint (sumRangesSize rs) \<or> rs = [])"
      by (auto split: if_splits)
    let ?w1 = "w\<lparr>wHeader := hSet (wHeader w) ''Content-Range'' (contentRange (hd ?eff) ?sz)\<rparr>"
    from one have run: "serveContent env w req fc ctype rr =
        sendResponse ?w1 req True 206 (lengthR (hd ?eff))
          (Inr (readerCopyN (content fc) (lengthR (hd ?eff))))"
      unfolding serveContent_def Let_def parsed using nn by simp
    have f1: "wStatus ?w1 = None" using fresh by simp
    from sendResponse_Inr [OF f1, of req True 206 "lengthR (hd ?eff)"
        "readerCopyN (content fc) (lengthR (hd ?eff))"] c
    show ?thesis unfolding run by (auto simp add: hSet_def)
  next
    case many
    then have c: "\<not> (sint ?sz < sint (sumRangesSize rs) \<or> rs = [])"
      and e: "?eff = rs"
      by (auto split: if_splits)
    have guard: "\<not> list_ex (\<lambda>ra. sint ?sz < sint (start ra)) rs"
      using inres by (auto simp add: list_ex_iff)
    let ?b = "randomBoundary (rand env 1)"
    let ?n = "rangesMIMESize (rand env 0) rs ctype ?sz"
    let ?w1 = "w\<lparr>wHeader := hSet (wHeader w) ''Content-Type'' (''multipart/byteranges; boundary='' @ ?b)\<rparr>"
    obtain body where body: "pipeCopyN (producer ?b False rs ctype (content fc) ?sz) ?n = Inr body"
      using pipeCopyN_no_panic [of "producer ?b False rs ctype (content fc) ?sz" ?n]
        producer_no_panic [OF s inres] by blast
    from many e guard have run: "serveContent env w req fc ctype rr =
        sendResponse ?w1 req True 206 ?n (Inr body)"
      unfolding serveContent_def Let_def parsed using nn by (simp add: body del: One_nat_def)
    have f1: "wStatus ?w1 = None" using fresh by simp
    from sendResponse_Inr [OF f1, of req True 206 ?n body] c
    show ?thesis unfolding run by (auto simp add: hSet_def)
  qed
qed

text \<open>
  C7: the check of \<^verbatim>\<open>If-Modified-Since\<close>.  For a request whose path is in the store and
  an entry \<open>fc\<close> whose \<open>lastModified\<close> is not the zero time, \<open>ims\<close> being the parsed
  header: if \<open>ims\<close> is a date \<open>t\<close> with \<open>lastModified < t + 1s\<close>, the handler removes
  \<^verbatim>\<open>Content-Type\<close> and \<^verbatim>\<open>Content-Length\<close> from the response header, writes the status
  304 and stops.  Otherwise it sets \<^verbatim>\<open>Last-Modified\<close> to the formatted \<open>lastModified\<close>
  and goes on with the rest of the handler: every response it then returns carries
  that \<^verbatim>\<open>Last-Modified\<close> value, and when the rest of the request is in order (a fresh
  writer, the ETag check does not end the request, the content type is found, the
  Range header parses into ranges that start inside the resource) the response has the
  status 200 and, unless the method is HEAD, the whole content as its body if no range
  is in effect, and the status 206 if one is.  So a date one second after
  \<open>lastModified\<close> gives 304 with nothing added to the body, and a date one second before
  it gives that response of status 200 or 206.
\<close>

theorem If_Modified_Since:
  assumes upath: "upath = (if HasPrefix (URLPath req) ''/'' then drop 1 (URLPath req) else URLPath req)"
      and found: "files za upath = Some a"
      and fc: "fc = cells m a"
      and nonzero: "lastModified fc \<noteq> 0"
      and ims: "ims = ParseTime env (hGet (Header req) ''If-Modified-Since'')"
      and w1: "w1 = rw\<lparr>wHeader := hSet (wHeader rw) ''Last-Modified'' (FormatTime env (lastModified fc))\<rparr>"
      and sz: "sz = (of_nat (length (content fc)) :: int64)"
  shows
   "(\<forall>t. ims = Some t \<and> lastModified fc < t + second \<longrightarrow>
        ServeHTTP env m za rw req =
          Inr (WriteHeader (rw\<lparr>wHeader := hDel (hDel (wHeader rw) ''Content-Type'') ''Content-Length''\<rparr>) 304))
  \<and> (\<not> (\<exists>t. ims = Some t \<and> lastModified fc < t + second) \<longrightarrow>
        ServeHTTP env m za rw req = serveChecked env w1 req upath fc
      \<and> (\<forall>w. ServeHTTP env m za rw req = Inr w \<longrightarrow>
            wHeader w ''Last-Modified'' = Some [FormatTime env (lastModified fc)])
      \<and> (wStatus rw = None \<and> wBody rw = [] \<and> length (content fc) < 2 ^ 63
      \<and> checkETag w1 req = (w1, rr, False)
      \<and> resolveContentType env w1 upath fc = Inr ctype
      \<and> parseRange rr sz = Inr rs
      \<and> (\<forall>r \<in> set rs. 0 \<le> sint (start r) \<and> sint (start r) \<le> sint sz) \<longrightarrow>
          (\<exists>w. ServeHTTP env m za rw req = Inr w
           \<and> wStatus w = Some (if sint sz < sint (sumRangesSize rs) \<or> rs = [] then 200 else 206)
           \<and> wHeader w ''Last-Modified'' = Some [FormatTime env (lastModified fc)]
           \<and> ((sint sz < sint (sumRangesSize rs) \<or> rs = []) \<and> Method req \<noteq> ''HEAD'' \<longrightarrow>
                wBody w = content fc))))
  \<and> (ims = Some (lastModified fc + second) \<and> wStatus rw = None \<longrightarrow>
        (\<exists>w. ServeHTTP env m za rw req = Inr w \<and> wStatus w = Some 304 \<and> wBody w = wBody rw
           \<and> wHeader w ''Content-Type'' = None \<and> wHeader w ''Content-Length'' = None))
  \<and> (ims = Some (lastModified fc - second)
      \<and> wStatus rw = None \<and> wBody rw = [] \<and> length (content fc) < 2 ^ 63
      \<and> checkETag w1 req = (w1, rr, False)
      \<and> resolveContentType env w1 upath fc = Inr ctype
      \<and> parseRange rr sz = Inr rs
      \<and> (\<forall>r \<in> set rs. 0 \<le> sint (start r) \<and> sint (start r) \<le> sint sz) \<longrightarrow>
        (\<exists>w. ServeHTTP env m za rw req = Inr w
           \<and> wStatus w = Some (if sint sz < sint (sumRangesSize rs) \<or> rs = [] then 200 else 206)
           \<and> wHeader w ''Last-Modified'' = Some [FormatTime env (lastModified fc)]
           \<and> ((sint sz < sint (sumRangesSize rs) \<or> rs = []) \<and> Method req \<noteq> ''HEAD'' \<longrightarrow>
                wBody w = content fc)))"
proof -
  let ?gone = "WriteHeader (rw\<lparr>wHeader := hDel (hDel (wHeader rw) ''Content-Type'') ''Content-Length''\<rparr>) 304"
  let ?lm = "Some [FormatTime env (lastModified fc)]"
  have run: "ServeHTTP env m za rw req =
      (case checkLastModified env rw req (lastModified fc) of
         (rw', done) \<Rightarrow> if done then Inr rw' else serveChecked env rw' req upath fc)"
    using found unfolding ServeHTTP_def Let_def upath fc by simp
  have yes: "ServeHTTP env m za rw req = Inr ?gone"
    if "ims = Some t" "lastModified fc < t + second" for t
    using that nonzero unfolding run checkLastModified_def ims by (simp add: Let_def)
  have no: "ServeHTTP env m za rw req = serveChecked env w1 req upath fc"
    if "\<not> (\<exists>t. ims = Some t \<and> lastModified fc < t + second)"
    using that nonzero unfolding run checkLastModified_def ims w1
    by (auto split: option.splits)
  have kept: "wHeader w ''Last-Modified'' = ?lm"
    if "serveChecked env w1 req upath fc = Inr w" for w
    using serveChecked_keeps [OF that] by (simp add: w1 hSet_def)
  have served: "\<exists>w. serveChecked env w1 req upath fc = Inr w
           \<and> wStatus w = Some (if sint sz < sint (sumRangesSize rs) \<or> rs = [] then 200 else 206)
           \<and> wHeader w ''Last-Modified'' = ?lm
           \<and> ((sint sz < sint (sumRangesSize rs) \<or> rs = []) \<and> Method req \<noteq> ''HEAD'' \<longrightarrow>
                wBody w = content fc)"
    if n: "wStatus rw = None \<and> wBody rw = [] \<and> length (content fc) < 2 ^ 63
      \<and> checkETag w1 req = (w1, rr, False)
      \<and> resolveContentType env w1 upath fc = Inr ctype
      \<and> parseRange rr sz = Inr rs
      \<and> (\<forall>r \<in> set rs. 0 \<le> sint (start r) \<and> sint (start r) \<le> sint sz)"
  proof -
    from n have fresh: "wStatus w1 = None" and body: "wBody w1 = []" by (simp_all add: w1)
    from n have len: "length (content fc) < 2 ^ 63" by simp
    from n have parsed: "parseRange rr (of_nat (length (content fc))) = Inr rs" by (simp add: sz)
    from n have inres: "\<forall>r \<in> set rs. 0 \<le> sint (start r)
                    \<and> sint (start r) \<le> sint (of_nat (length (content fc)) :: int64)"
      by (simp add: sz)
    from n have go: "serveChecked env w1 req upath fc = serveContent env w1 req fc ctype rr"
      by (simp add: serveChecked_def)
    from serveContent_served [OF fresh len parsed inres, of env req ctype]
    obtain w where w: "serveContent env w1 req fc ctype rr = Inr w"
      "wStatus w = Some (if sint sz < sint (sumRangesSize rs) \<or> rs = [] then 200 else 206)"
      "wHeader w ''Last-Modified'' = wHeader w1 ''Last-Modified''"
      "(sint sz < sint (sumRangesSize rs) \<or> rs = []) \<and> Method req \<noteq> ''HEAD'' \<longrightarrow>
                wBody w = wBody w1 @ content fc"
      unfolding sz by blast
    then show ?thesis
      unfolding go using body by (auto simp add: w1 hSet_def)
  qed
  have before: "\<not> (\<exists>t. ims = Some t \<and> lastModified fc < t + second)"
    if "ims = Some (lastModified fc - second)"
    using that by simp
  have A: "(\<forall>t. ims = Some t \<and> lastModified fc < t + second \<longrightarrow>
        ServeHTTP env m za rw req =
          Inr (WriteHeader (rw\<lparr>wHeader := hDel (hDel (wHeader rw) ''Content-Type'') ''Content-Length''\<rparr>) 304))"
    using yes by blast
  have B: "(\<not> (\<exists>t. ims = Some t \<and> lastModified fc < t + second) \<longrightarrow>
        ServeHTTP env m za rw req = serveChecked env w1 req upath fc
      \<and> (\<forall>w. ServeHTTP env m za rw req = Inr w \<longrightarrow>
            wHeader w ''Last-Modified'' = Some [FormatTime env (lastModified fc)])
      \<and> (wStatus rw = None \<and> wBody rw = [] \<and> length (content fc) < 2 ^ 63
      \<and> checkETag w1 req = (w1, rr, False)
      \<and> resolveContentType env w1 upath fc = Inr ctype
      \<and> parseRange rr sz = Inr rs
      \<and> (\<forall>r \<in> set rs. 0 \<le> sint (start r) \<and> sint (start r) \<le> sint sz) \<longrightarrow>
          (\<exists>w. ServeHTTP env m za rw req = Inr w
           \<and> wStatus w = Some (if sint sz < sint (sumRangesSize rs) \<or> rs = [] then 200 else 206)
           \<and> wHeader w ''Last-Modified'' = Some [FormatTime env (lastModified fc)]
           \<and> ((sint sz < sint (sumRangesSize rs) \<or> rs = []) \<and> Method req \<noteq> ''HEAD'' \<longrightarrow>
                wBody w = content fc))))"
  proof (intro impI conjI)
    assume h: "\<not> (\<exists>t. ims = Some t \<and> lastModified fc < t + second)"
    show "ServeHTTP env m za rw req = serveChecked env w1 req upath fc"
      by (rule no [OF h])
    show "\<forall>w. ServeHTTP env m za rw req = Inr w \<longrightarrow>
            wHeader w ''Last-Modified'' = Some [FormatTime env (lastModified fc)]"
      unfolding no [OF h] using kept by blast
    assume n: "wStatus rw = None \<and> wBody rw = [] \<and> length (content fc) < 2 ^ 63
      \<and> checkETag w1 req = (w1, rr, False)
      \<and> resolveContentType env w1 upath fc = Inr ctype
      \<and> parseRange rr sz = Inr rs
      \<and> (\<forall>r \<in> set rs. 0 \<le> sint (start r) \<and> sint (start r) \<le> sint sz)"
    show "(\<exists>w. ServeHTTP env m za rw req = Inr w
           \<and> wStatus w = Some (if sint sz < sint (sumRangesSize rs) \<or> rs = [] then 200 else 206)
           \<and> wHeader w ''Last-Modified'' = Some [FormatTime env (lastModified fc)]
           \<and> ((sint sz < sint (sumRangesSize rs) \<or> rs = []) \<and> Method req \<noteq> ''HEAD'' \<longrightarrow>
                wBody w = content fc))"
      unfolding no [OF h] by (rule served [OF n])
  qed
  have C: "(ims = Some (lastModified fc + second) \<and> wStatus rw = None \<longrightarrow>
        (\<exists>w. ServeHTTP env m za rw req = Inr w \<and> wStatus w = Some 304 \<and> wBody w = wBody rw
           \<and> wHeader w ''Content-Type'' = None \<and> wHeader w ''Content-Length'' = None))"
    using yes [of "lastModified fc + second"]
    by (auto simp add: second_def WriteHeader_def hDel_def)
  have D: "(ims = Some (lastModified fc - second)
      \<and> wStatus rw = None \<and> wBody rw = [] \<and> length (content fc) < 2 ^ 63
      \<and> checkETag w1 req = (w1, rr, False)
      \<and> resolveContentType env w1 upath fc = Inr ctype
      \<and> parseRange rr sz = Inr rs
      \<and> (\<forall>r \<in> set rs. 0 \<le> sint (start r) \<and> sint (start r) \<le> sint sz) \<longrightarrow>
        (\<exists>w. ServeHTTP env m za rw req = Inr w
           \<and> wStatus w = Some (if sint sz < sint (sumRangesSize rs) \<or> rs = [] then 200 else 206)
           \<and> wHeader w ''Last-Modified'' = Some [FormatTime env (lastModified fc)]
           \<and> ((sint sz < sint (sumRangesSize rs) \<or> rs = []) \<and> Method req \<noteq> ''HEAD'' \<longrightarrow>
                wBody w = content fc)))"
  proof
    assume h: "ims = Some (lastModified fc - second)
      \<and> wStatus rw = None \<and> wBody rw = [] \<and> length (content fc) < 2 ^ 63
      \<and> checkETag w1 req = (w1, rr, False)
      \<and> resolveContentType env w1 upath fc = Inr ctype
      \<and> parseRange rr sz = Inr rs
      \<and> (\<forall>r \<in> set rs. 0 \<le> sint (start r) \<and> sint (start r) \<le> sint sz)"
    then have b: "\<not> (\<exists>t. ims = Some t \<and> lastModified fc < t + second)"
      using before by blast
    from h have n: "wStatus rw = None \<and> wBody rw = [] \<and> length (content fc) < 2 ^ 63
      \<and> checkETag w1 req = (w1, rr, False)
      \<and> resolveContentType env w1 upath fc = Inr ctype
      \<and> parseRange rr sz = Inr rs
      \<and> (\<forall>r \<in> set rs. 0 \<le> sint (start r) \<and> sint (start r) \<le> sint sz)" by blast
    show "(\<exists>w. ServeHTTP env m za rw req = Inr w
           \<and> wStatus w = Some (if sint sz < sint (sumRangesSize rs) \<or> rs = [] then 200 else 206)
           \<and> wHeader w ''Last-Modified'' = Some [FormatTime env (lastModified fc)]
           \<and> ((sint sz < sint (sumRangesSize rs) \<or> rs = []) \<and> Method req \<noteq> ''HEAD'' \<longrightarrow>
                wBody w = content fc))"
      unfolding no [OF b] by (rule served [OF n])
  qed
  show ?thesis
    using A B C D by (intro conjI)
qed

theorem If_Modified_Since_witness:
  "(\<exists>w. ServeHTTP exampleWorld siteMemory siteAssets emptyWriter
          (getRequest ''/index.html'' [(''If-Modified-Since'', ''Sun, 09 Sep 2001 01:46:41 GMT'')]) = Inr w
        \<and> wStatus w = Some 304 \<and> wBody w = []
        \<and> wHeader w ''Content-Type'' = None \<and> wHeader w ''Content-Length'' = None)
 \<and> (\<exists>w. ServeHTTP exampleWorld siteMemory siteAssets emptyWriter
          (getRequest ''/index.html'' [(''If-Modified-Since'', ''Sun, 09 Sep 2001 01:46:39 GMT'')]) = Inr w
        \<and> wStatus w = Some 200
        \<and> wHeader w ''Last-Modified'' = Some [''Sun, 09 Sep 2001 01:46:40 GMT'']
        \<and> wBody w = ''0123456789'')"
proof -
  let ?r1 = "getRequest ''/index.html'' [(''If-Modified-Since'', ''Sun, 09 Sep 2001 01:46:41 GMT'')]"
  let ?r2 = "getRequest ''/index.html'' [(''If-Modified-Since'', ''Sun, 09 Sep 2001 01:46:39 GMT'')]"
  let ?fc = "cells siteMemory 0"
  let ?w1 = "emptyWriter\<lparr>wHeader := hSet (wHeader emptyWriter) ''Last-Modified''
               (FormatTime exampleWorld (lastModified ?fc))\<rparr>"
  have u1: "''index.html'' = (if HasPrefix (URLPath ?r1) ''/'' then drop 1 (URLPath ?r1) else URLPath ?r1)"
    by (simp add: getRequest_def HasPrefix_def)
  have u2: "''index.html'' = (if HasPrefix (URLPath ?r2) ''/'' then drop 1 (URLPath ?r2) else URLPath ?r2)"
    by (simp add: getRequest_def HasPrefix_def)
  have f: "files siteAssets ''index.html'' = Some 0"
    by (simp add: siteAssets_def)
  have nz: "lastModified ?fc \<noteq> 0"
    by (simp add: siteMemory_def T1_def second_def)
  have p1: "ParseTime exampleWorld (hGet (Header ?r1) ''If-Modified-Since'') = Some (lastModified ?fc + second)"
    by (simp add: exampleWorld_def getRequest_def hGet_def siteMemory_def T1_def second_def)
  have p2: "ParseTime exampleWorld (hGet (Header ?r2) ''If-Modified-Since'') = Some (lastModified ?fc - second)"
    by (simp add: exampleWorld_def getRequest_def hGet_def siteMemory_def T1_def second_def)
  have fresh: "wStatus emptyWriter = None" "wBody emptyWriter = []"
    by (simp_all add: emptyWriter_def)
  have len: "length (content ?fc) < 2 ^ 63"
    by (simp add: siteMemory_def)
  have e: "checkETag ?w1 ?r2 = (?w1, [], False)"
    by (simp add: checkETag_def getRequest_def hGet_def hSet_def emptyWriter_def Let_def)
  have t: "resolveContentType exampleWorld ?w1 ''index.html'' ?fc = Inr ''text/html; charset=utf-8''"
    by (simp add: resolveContentType_def Ext_def exampleWorld_def emptyWriter_def hSet_def Let_def)
  have pr: "parseRange [] (of_nat (length (content ?fc))) = Inr []"
    by (simp add: parseRange_def)
  have ft: "FormatTime exampleWorld (lastModified ?fc) = ''Sun, 09 Sep 2001 01:46:40 GMT''"
    by (simp add: exampleWorld_def siteMemory_def)
  have c: "content ?fc = ''0123456789''" by (simp add: siteMemory_def)
  have g: "Method ?r2 \<noteq> ''HEAD''" by (simp add: getRequest_def)
  from If_Modified_Since [OF u1 f refl nz refl refl refl, where env = exampleWorld and rw = emptyWriter]
    p1 fresh
  have a: "\<exists>w. ServeHTTP exampleWorld siteMemory siteAssets emptyWriter ?r1 = Inr w
        \<and> wStatus w = Some 304 \<and> wBody w = []
        \<and> wHeader w ''Content-Type'' = None \<and> wHeader w ''Content-Length'' = None"
    by metis
  from If_Modified_Since [OF u2 f refl nz refl refl refl, where env = exampleWorld and rw = emptyWriter
      and rr = "[]" and ctype = "''text/html; charset=utf-8''" and rs = "[]"]
  have "ParseTime exampleWorld (hGet (Header ?r2) ''If-Modified-Since'') = Some (lastModified ?fc - second)
      \<and> wStatus emptyWriter = None \<and> wBody emptyWriter = [] \<and> length (content ?fc) < 2 ^ 63
      \<and> checkETag ?w1 ?r2 = (?w1, [], False)
      \<and> resolveContentType exampleWorld ?w1 ''index.html'' ?fc = Inr ''text/html; charset=utf-8''
      \<and> parseRange [] (of_nat (length (content ?fc))) = Inr []
      \<and> (\<forall>r \<in> set ([] :: httpRange list). 0 \<le> sint (start r)
            \<and> sint (start r) \<le> sint (of_nat (length (content ?fc)) :: int64)) \<longrightarrow>
        (\<exists>w. ServeHTTP exampleWorld siteMemory siteAssets emptyWriter ?r2 = Inr w
           \<and> wStatus w = Some (if sint (of_nat (length (content ?fc)) :: int64) < sint (sumRangesSize [])
                                   \<or> ([] :: httpRange list) = [] then 200 else 206)
           \<and> wHeader w ''Last-Modified'' = Some [FormatTime exampleWorld (lastModified ?fc)]
           \<and> ((sint (of_nat (length (content ?fc)) :: int64) < sint (sumRangesSize [])
                   \<or> ([] :: httpRange list) = []) \<and> Method ?r2 \<noteq> ''HEAD'' \<longrightarrow>
                wBody w = content ?fc))"
    by blast
  with p2 fresh len e t pr
  have "\<exists>w. ServeHTTP exampleWorld siteMemory siteAssets emptyWriter ?r2 = Inr w
           \<and> wStatus w = Some (if sint (of_nat (length (content ?fc)) :: int64) < sint (sumRangesSize [])
                                   \<or> ([] :: httpRange list) = [] then 200 else 206)
           \<and> wHeader w ''Last-Modified'' = Some [FormatTime exampleWorld (lastModified ?fc)]
           \<and> ((sint (of_nat (length (content ?fc)) :: int64) < sint (sumRangesSize [])
                   \<or> ([] :: httpRange list) = []) \<and> Method ?r2 \<noteq> ''HEAD'' \<longrightarrow>
                wBody w = content ?fc)"
    by simp
  then have b: "\<exists>w. ServeHTTP exampleWorld siteMemory siteAssets emptyWriter ?r2 = Inr w
        \<and> wStatus w = Some 200
        \<and> wHeader w ''Last-Modified'' = Some [''Sun, 09 Sep 2001 01:46:40 GMT'']
        \<and> wBody w = ''0123456789''"
    using g by (simp add: ft c)
  from a b show ?thesis by blast
qed

text \<open>
  C8: the checks of \<^verbatim>\<open>If-None-Match\<close> and \<^verbatim>\<open>If-Range\<close>.  A header counts as carried
  when \<^verbatim>\<open>Get\<close> returns a non-empty value.  For a request that carries
  \<^verbatim>\<open>If-None-Match\<close> with the method GET or HEAD: with an empty \<^verbatim>\<open>Etag\<close> on the
  response the check does not match (the writer is unchanged, the request not done);
  with a non-empty \<^verbatim>\<open>Etag\<close> and a header equal to it or to \<^verbatim>\<open>*\<close>, \<^verbatim>\<open>checkETag\<close>
  removes \<^verbatim>\<open>Content-Type\<close> and \<^verbatim>\<open>Content-Length\<close>, writes 304 and reports the request
  done, and the handler, on a path in the store and a fresh writer, answers 304 with
  no body and without these two headers.  For any other method the check is skipped.
  If the request carries \<^verbatim>\<open>If-Range\<close> with a value other than the \<^verbatim>\<open>Etag\<close>, the Range
  header is dropped: \<^verbatim>\<open>checkETag\<close> and the handler behave as on the request without
  its Range header.
\<close>

theorem If_None_Match_and_If_Range:
  "(hGet (Header req) ''If-None-Match'' \<noteq> [] \<and> (Method req = ''GET'' \<or> Method req = ''HEAD'')
      \<and> hGet (wHeader rw) ''Etag'' = [] \<longrightarrow>
      fst (checkETag rw req) = rw \<and> \<not> snd (snd (checkETag rw req)))
 \<and> (hGet (Header req) ''If-None-Match'' \<noteq> [] \<and> (Method req = ''GET'' \<or> Method req = ''HEAD'')
      \<and> hGet (wHeader rw) ''Etag'' \<noteq> []
      \<and> (hGet (Header req) ''If-None-Match'' = hGet (wHeader rw) ''Etag''
           \<or> hGet (Header req) ''If-None-Match'' = ''*'') \<longrightarrow>
      checkETag rw req =
        (WriteHeader (rw\<lparr>wHeader := hDel (hDel (wHeader rw) ''Content-Type'') ''Content-Length''\<rparr>) 304, [], True)
      \<and> (files za (if HasPrefix (URLPath req) ''/'' then drop 1 (URLPath req) else URLPath req) \<noteq> None
           \<and> wStatus rw = None \<and> wBody rw = [] \<longrightarrow>
          (\<exists>w. ServeHTTP env m za rw req = Inr w \<and> wStatus w = Some 304 \<and> wBody w = []
             \<and> wHeader w ''Content-Type'' = None \<and> wHeader w ''Content-Length'' = None)))
 \<and> (Method req \<noteq> ''GET'' \<and> Method req \<noteq> ''HEAD'' \<longrightarrow>
      fst (checkETag rw req) = rw \<and> \<not> snd (snd (checkETag rw req)))
 \<and> (hGet (Header req) ''If-Range'' \<noteq> []
      \<and> hGet (Header req) ''If-Range'' \<noteq> hGet (wHeader rw) ''Etag'' \<longrightarrow>
      checkETag rw req = checkETag rw (req\<lparr>Header := hDel (Header req) ''Range''\<rparr>)
      \<and> fst (snd (checkETag rw req)) = []
      \<and> ServeHTTP env m za rw req = ServeHTTP env m za rw (req\<lparr>Header := hDel (Header req) ''Range''\<rparr>))"
proof (intro conjI impI)
  assume "hGet (Header req) ''If-None-Match'' \<noteq> [] \<and> (Method req = ''GET'' \<or> Method req = ''HEAD'')
      \<and> hGet (wHeader rw) ''Etag'' = []"
  then show "fst (checkETag rw req) = rw" and "\<not> snd (snd (checkETag rw req))"
    by (simp_all add: checkETag_def Let_def)
next
  assume h: "hGet (Header req) ''If-None-Match'' \<noteq> [] \<and> (Method req = ''GET'' \<or> Method req = ''HEAD'')
      \<and> hGet (wHeader rw) ''Etag'' \<noteq> []
      \<and> (hGet (Header req) ''If-None-Match'' = hGet (wHeader rw) ''Etag''
           \<or> hGet (Header req) ''If-None-Match'' = ''*'')"
  then show "checkETag rw req =
        (WriteHeader (rw\<lparr>wHeader := hDel (hDel (wHeader rw) ''Content-Type'') ''Content-Length''\<rparr>) 304, [], True)"
    by (auto simp add: checkETag_def Let_def)
  assume f: "files za (if HasPrefix (URLPath req) ''/'' then drop 1 (URLPath req) else URLPath req) \<noteq> None
           \<and> wStatus rw = None \<and> wBody rw = []"
  then obtain a where a: "files za (if HasPrefix (URLPath req) ''/'' then drop 1 (URLPath req) else URLPath req) = Some a"
    by blast
  obtain w1 d where c: "checkLastModified env rw req (lastModified (cells m a)) = (w1, d)"
    by (cases "checkLastModified env rw req (lastModified (cells m a))") auto
  show "\<exists>w. ServeHTTP env m za rw req = Inr w \<and> wStatus w = Some 304 \<and> wBody w = []
             \<and> wHeader w ''Content-Type'' = None \<and> wHeader w ''Content-Length'' = None"
  proof (cases d)
    case True
    with c f checkLastModified_done [of env rw req _ w1] a show ?thesis
      by (simp add: ServeHTTP_def Let_def)
  next
    case False
    with c have e: "hGet (wHeader w1) ''Etag'' = hGet (wHeader rw) ''Etag''"
      by (simp add: checkLastModified_Etag)
    from c False f have s: "wStatus w1 = None \<and> wBody w1 = []"
      using checkLastModified_not_done [of env rw req _ w1] by simp
    have "checkETag w1 req =
        (WriteHeader (w1\<lparr>wHeader := hDel (hDel (wHeader w1) ''Content-Type'') ''Content-Length''\<rparr>) 304, [], True)"
      using h e by (auto simp add: checkETag_def Let_def)
    with c False a s show ?thesis
      by (simp add: ServeHTTP_def serveChecked_def Let_def WriteHeader_def hDel_def)
  qed
next
  assume "Method req \<noteq> ''GET'' \<and> Method req \<noteq> ''HEAD''"
  then show "fst (checkETag rw req) = rw" and "\<not> snd (snd (checkETag rw req))"
    by (simp_all add: checkETag_def Let_def)
next
  assume h: "hGet (Header req) ''If-Range'' \<noteq> []
      \<and> hGet (Header req) ''If-Range'' \<noteq> hGet (wHeader rw) ''Etag''"
  then show "checkETag rw req = checkETag rw (req\<lparr>Header := hDel (Header req) ''Range''\<rparr>)"
    by (simp add: checkETag_no_range)
  from h show "fst (snd (checkETag rw req)) = []"
    by (simp add: checkETag_def Let_def)
  from h show "ServeHTTP env m za rw req = ServeHTTP env m za rw (req\<lparr>Header := hDel (Header req) ''Range''\<rparr>)"
    by (simp add: ServeHTTP_no_range)
qed

theorem If_None_Match_and_If_Range_witness:
  "(\<exists>w. ServeHTTP exampleWorld siteMemory siteAssets taggedWriter
          (getRequest ''/index.html'' [(''If-None-Match'', ''v1'')]) = Inr w
        \<and> wStatus w = Some 304 \<and> wBody w = []
        \<and> wHeader w ''Content-Type'' = None \<and> wHeader w ''Content-Length'' = None)
 \<and> fst (snd (checkETag taggedWriter
      (getRequest ''/index.html'' [(''If-Range'', ''v0''), (''Range'', ''bytes=0-3'')]))) = []"
proof -
  let ?r1 = "getRequest ''/index.html'' [(''If-None-Match'', ''v1'')]"
  let ?r2 = "getRequest ''/index.html'' [(''If-Range'', ''v0''), (''Range'', ''bytes=0-3'')]"
  have h1: "hGet (Header ?r1) ''If-None-Match'' \<noteq> [] \<and> (Method ?r1 = ''GET'' \<or> Method ?r1 = ''HEAD'')
      \<and> hGet (wHeader taggedWriter) ''Etag'' \<noteq> []
      \<and> (hGet (Header ?r1) ''If-None-Match'' = hGet (wHeader taggedWriter) ''Etag''
           \<or> hGet (Header ?r1) ''If-None-Match'' = ''*'')"
    by (simp add: getRequest_def hGet_def taggedWriter_def)
  have f1: "files siteAssets (if HasPrefix (URLPath ?r1) ''/'' then drop 1 (URLPath ?r1) else URLPath ?r1) \<noteq> None
           \<and> wStatus taggedWriter = None \<and> wBody taggedWriter = []"
    by (simp add: siteAssets_def getRequest_def HasPrefix_def taggedWriter_def)
  have h2: "hGet (Header ?r2) ''If-Range'' \<noteq> []
      \<and> hGet (Header ?r2) ''If-Range'' \<noteq> hGet (wHeader taggedWriter) ''Etag''"
    by (simp add: getRequest_def hGet_def taggedWriter_def)
  from If_None_Match_and_If_Range [of ?r1 taggedWriter siteAssets exampleWorld siteMemory] h1 f1
  have a: "\<exists>w. ServeHTTP exampleWorld siteMemory siteAssets taggedWriter ?r1 = Inr w
        \<and> wStatus w = Some 304 \<and> wBody w = []
        \<and> wHeader w ''Content-Type'' = None \<and> wHeader w ''Content-Length'' = None"
    by blast
  from If_None_Match_and_If_Range [of ?r2 taggedWriter siteAssets exampleWorld siteMemory] h2
  have b: "fst (snd (checkETag taggedWriter ?r2)) = []"
    by blast
  from a b show ?thesis by blast
qed

section \<open>Construction\<close>

text \<open>
  C9, as the claim states it: the path \<^verbatim>\<open>assets.rar\<close> has none of the three suffixes,
  and construction returns no error: it returns the handler of an empty store.
\<close>

theorem other_suffix_no_error:
  "\<not> HasSuffix (ToLower exampleWorld ''assets.rar'') ''.zip''
 \<and> \<not> HasSuffix (ToLower exampleWorld ''assets.rar'') ''.tar.gz''
 \<and> \<not> HasSuffix (ToLower exampleWorld ''assets.rar'') ''.tar.bz2''
 \<and> NewZipAssets exampleWorld emptyMemory ''assets.rar'' []
       = (Assets \<lparr>path = ''assets.rar'', files = Map.empty\<rparr>, None, emptyMemory)"
  by (simp add: load_eval)

text \<open>
  C9, amended: without the debug argument, construction selects the reader by the
  suffix of the lower-cased path, \<^verbatim>\<open>.zip\<close> the zip reader, \<^verbatim>\<open>.tar.gz\<close> the
  gzip-then-tar reader, \<^verbatim>\<open>.tar.bz2\<close> the bzip2-then-tar reader, and returns the error of
  that reader, with the file server of the directory as handler when there is one; for
  a path with any other suffix no reader runs and construction returns the handler of
  the empty store and no error.
\<close>

theorem NewZipAssets_by_suffix:
  assumes "args = [] \<or> hd args \<noteq> BoolArg True"
  shows
   "(HasSuffix (ToLower env p) ''.zip'' \<longrightarrow>
       NewZipAssets env m p args =
         (case openZip env \<lparr>path = p, files = Map.empty\<rparr> m of
            (err, za, m') \<Rightarrow> (if err \<noteq> None then FileServer (basename env p) else Assets za, err, m')))
  \<and> (\<not> HasSuffix (ToLower env p) ''.zip'' \<and> HasSuffix (ToLower env p) ''.tar.gz'' \<longrightarrow>
       NewZipAssets env m p args =
         (case openTarGz env \<lparr>path = p, files = Map.empty\<rparr> m of
            (err, za, m') \<Rightarrow> (if err \<noteq> None then FileServer (basename env p) else Assets za, err, m')))
  \<and> (\<not> HasSuffix (ToLower env p) ''.zip'' \<and> \<not> HasSuffix (ToLower env p) ''.tar.gz''
       \<and> HasSuffix (ToLower env p) ''.tar.bz2'' \<longrightarrow>
       NewZipAssets env m p args =
         (case openTarBz2 env \<lparr>path = p, files = Map.empty\<rparr> m of
            (err, za, m') \<Rightarrow> (if err \<noteq> None then FileServer (basename env p) else Assets za, err, m')))
  \<and> (\<not> HasSuffix (ToLower env p) ''.zip'' \<and> \<not> HasSuffix (ToLower env p) ''.tar.gz''
       \<and> \<not> HasSuffix (ToLower env p) ''.tar.bz2'' \<longrightarrow>
       NewZipAssets env m p args = (Assets \<lparr>path = p, files = Map.empty\<rparr>, None, m))"
proof -
  have nodebug: "\<not> (args \<noteq> [] \<and> (case hd args of BoolArg debug \<Rightarrow> debug | OtherArg \<Rightarrow> False))"
    using assms by (cases args) (auto split: arg.splits)
  show ?thesis
    unfolding NewZipAssets_def Let_def using nodebug
    by (auto split: prod.splits)
qed

theorem NewZipAssets_by_suffix_witness:
  "NewZipAssets exampleWorld emptyMemory ''ASSETS.ZIP'' [] =
     (case openZip exampleWorld \<lparr>path = ''ASSETS.ZIP'', files = Map.empty\<rparr> emptyMemory of
        (err, za, m') \<Rightarrow> (if err \<noteq> None then FileServer (basename exampleWorld ''ASSETS.ZIP'') else Assets za, err, m'))
 \<and> NewZipAssets exampleWorld emptyMemory ''notes.txt'' [OtherArg] =
     (Assets \<lparr>path = ''notes.txt'', files = Map.empty\<rparr>, None, emptyMemory)"
proof -
  have a: "([]::arg list) = [] \<or> hd [] \<noteq> BoolArg True" by simp
  have b: "[OtherArg] = [] \<or> hd [OtherArg] \<noteq> BoolArg True" by simp
  have z: "HasSuffix (ToLower exampleWorld ''ASSETS.ZIP'') ''.zip''"
    by (simp add: exampleWorld_def HasSuffix_def asciiLower_def)
  have n: "\<not> HasSuffix (ToLower exampleWorld ''notes.txt'') ''.zip'' \<and> \<not> HasSuffix (ToLower exampleWorld ''notes.txt'') ''.tar.gz''
       \<and> \<not> HasSuffix (ToLower exampleWorld ''notes.txt'') ''.tar.bz2''"
    by (simp add: exampleWorld_def HasSuffix_def asciiLower_def)
  show ?thesis
    using NewZipAssets_by_suffix [OF a, of exampleWorld "''ASSETS.ZIP''" emptyMemory]
          NewZipAssets_by_suffix [OF b, of exampleWorld "''notes.txt''" emptyMemory] z n
    by blast
qed

section \<open>A range that starts at the end of the resource\<close>

lemma digitChar_isDigit: "d < 10 \<Longrightarrow> isDigit (digitChar d)"
proof -
  assume "d < 10"
  then have "d \<in> {0, 1, 2, 3, 4, 5, 6, 7, 8, 9}" by auto
  then show ?thesis by (auto simp add: isDigit_def digitChar_def)
qed

lemma digitVal_digitChar: "d < 10 \<Longrightarrow> digitVal (digitChar d) = Some d"
proof -
  assume "d < 10"
  then have "d \<in> {0, 1, 2, 3, 4, 5, 6, 7, 8, 9}" by auto
  then show ?thesis by (auto simp add: digitVal_def digitChar_def)
qed

lemma showNat_digits: "\<forall>c \<in> set (showNat n). isDigit c"
proof (induction n rule: showNat.induct)
  case (1 n)
  show ?case
  proof (cases "n < 10")
    case True
    then show ?thesis by (subst showNat.simps) (simp add: digitChar_isDigit)
  next
    case False
    with 1 show ?thesis by (subst showNat.simps) (simp add: digitChar_isDigit)
  qed
qed

lemma showNat_nonempty: "showNat n \<noteq> []"
  by (subst showNat.simps) simp

lemma parseDigits_append_digit:
  "parseDigits acc (s @ [c]) =
     (case parseDigits acc s of None \<Rightarrow> None
      | Some v \<Rightarrow> (case digitVal c of None \<Rightarrow> None | Some d \<Rightarrow> Some (v * 10 + d)))"
  by (induction s arbitrary: acc) (auto split: option.splits)

lemma parseDigits_showNat: "parseDigits 0 (showNat n) = Some n"
proof (induction n rule: showNat.induct)
  case (1 n)
  show ?case
  proof (cases "n < 10")
    case True
    then show ?thesis by (subst showNat.simps) (simp add: digitVal_digitChar)
  next
    case False
    with 1 have "parseDigits 0 (showNat (n div 10)) = Some (n div 10)" by simp
    with False show ?thesis
      by (subst showNat.simps) (simp add: parseDigits_append_digit digitVal_digitChar)
  qed
qed

lemma isDigit_plain:
  "isDigit c \<Longrightarrow> \<not> asciiSpace c \<and> c \<noteq> CHR ''-'' \<and> c \<noteq> CHR ''+'' \<and> c \<noteq> CHR '',''
     \<and> c \<noteq> CHR 0xC2 \<and> c \<noteq> CHR 0xE1 \<and> c \<noteq> CHR 0xE2 \<and> c \<noteq> CHR 0xE3
     \<and> c \<noteq> CHR 0x85 \<and> c \<noteq> CHR 0xA0 \<and> \<not> space3 a b c"
  by (auto simp add: isDigit_def asciiSpace_def space3_def)

lemma spaceWidth_plain:
  assumes "\<not> asciiSpace a" "a \<noteq> CHR 0xC2" "a \<noteq> CHR 0xE1" "a \<noteq> CHR 0xE2" "a \<noteq> CHR 0xE3"
  shows "spaceWidth (a # s) = 0"
proof (cases s)
  case Nil
  with assms show ?thesis by simp
next
  case (Cons b t)
  with assms show ?thesis by (cases t) (simp_all add: space2_def space3_def)
qed

lemma spaceWidthRev_plain:
  assumes "\<not> asciiSpace c" "c \<noteq> CHR 0x85" "c \<noteq> CHR 0xA0" "\<And>a b. \<not> space3 a b c"
  shows "spaceWidthRev (c # s) = 0"
proof (cases s)
  case Nil
  with assms show ?thesis by simp
next
  case (Cons b t)
  with assms show ?thesis by (cases t) (simp_all add: space2_def)
qed

lemma minus_plain:
  "\<not> asciiSpace (CHR ''-'') \<and> CHR ''-'' \<noteq> CHR 0x85 \<and> CHR ''-'' \<noteq> CHR 0xA0
     \<and> \<not> space3 a b (CHR ''-'')"
  by (simp add: asciiSpace_def space3_def)

lemma trimLeft_id: "spaceWidth s = 0 \<Longrightarrow> trimLeft s = s"
  by (subst trimLeft.simps) simp

lemma trimLeftRev_id: "spaceWidthRev s = 0 \<Longrightarrow> trimLeftRev s = s"
  by (subst trimLeftRev.simps) simp

lemma TrimSpace_id:
  "spaceWidth s = 0 \<Longrightarrow> spaceWidthRev (rev s) = 0 \<Longrightarrow> TrimSpace s = s"
  by (simp add: TrimSpace_def trimLeft_id trimLeftRev_id)

lemma TrimSpace_Nil: "TrimSpace [] = []"
  by (simp add: TrimSpace_id)

lemma TrimSpace_digits:
  assumes "\<forall>c \<in> set s. isDigit c"
  shows "TrimSpace s = s"
proof (cases s)
  case Nil
  then show ?thesis by (simp add: TrimSpace_Nil)
next
  case (Cons a t)
  with assms have a: "isDigit a" by simp
  from Cons have "s \<noteq> []" by simp
  then obtain u z where s: "s = u @ [z]" by (metis rev_exhaust)
  with assms have z: "isDigit z" by simp
  have 1: "spaceWidth s = 0"
    unfolding Cons using isDigit_plain [OF a] by (intro spaceWidth_plain) simp_all
  have 2: "spaceWidthRev (rev s) = 0"
    unfolding s using isDigit_plain [OF z] by (simp add: spaceWidthRev_plain)
  from 1 2 show ?thesis by (rule TrimSpace_id)
qed

lemma TrimSpace_digits_minus:
  assumes "\<forall>c \<in> set s. isDigit c" and "s \<noteq> []"
  shows "TrimSpace (s @ ''-'') = s @ ''-''"
proof -
  from assms obtain a t where s: "s = a # t" by (cases s) auto
  with assms have a: "isDigit a" by simp
  have 1: "spaceWidth (s @ ''-'') = 0"
    unfolding s using isDigit_plain [OF a] by (simp add: spaceWidth_plain)
  have 2: "spaceWidthRev (rev (s @ ''-'')) = 0"
    using minus_plain by (simp add: spaceWidthRev_plain)
  from 1 2 show ?thesis by (rule TrimSpace_id)
qed

lemma splitOn_absent: "c \<notin> set s \<Longrightarrow> splitOn c cur s = [cur @ s]"
  by (induction s arbitrary: cur) auto

lemma ParseInt_showNat:
  assumes "n < 2 ^ 63"
  shows "ParseInt (showNat n) = Some (of_nat n)"
proof -
  obtain a t where s: "showNat n = a # t"
    using showNat_nonempty [of n] by (cases "showNat n") auto
  with showNat_digits [of n] have "isDigit a" by simp
  then have a: "a \<noteq> CHR ''-''" "a \<noteq> CHR ''+''"
    using isDigit_plain by blast+
  have p: "parseDigits 0 (a # t) = Some n"
    using parseDigits_showNat [of n] s by simp
  from assms have "\<not> (2 ^ 63 \<le> n)" by simp
  with a p show ?thesis
    unfolding ParseInt_def s by (simp add: Let_def del: parseDigits.simps)
qed

lemma FormatInt_of_nat: "n < 2 ^ 63 \<Longrightarrow> FormatInt (of_nat n) = showNat n"
  by (simp add: FormatInt_def sint_of_nat_small)

lemma parseRangeStep_at_end:
  assumes "n < 2 ^ 63"
  shows "parseRangeStep (of_nat n) (showNat n @ ''-'') = Inr (Some \<lparr>start = of_nat n, lengthR = 0\<rparr>)"
proof -
  let ?d = "showNat n"
  have dig: "\<forall>c \<in> set ?d. isDigit c" by (rule showNat_digits)
  have ne: "?d \<noteq> []" by (rule showNat_nonempty)
  have nominus: "CHR ''-'' \<notin> set ?d"
    using dig isDigit_plain by blast
  have t: "TrimSpace (?d @ ''-'') = ?d @ ''-''"
    using dig ne by (rule TrimSpace_digits_minus)
  have tw: "takeWhile (\<lambda>x. x \<noteq> CHR ''-'') (?d @ ''-'') = ?d"
    using nominus by (subst takeWhile_append2) auto
  have i: "Index (?d @ ''-'') (CHR ''-'') = int (length ?d)"
    unfolding Index_def tw by simp
  have ts: "TrimSpace ?d = ?d" using dig by (rule TrimSpace_digits)
  have p: "ParseInt ?d = Some (of_nat n)" using assms by (rule ParseInt_showNat)
  have s: "sint (of_nat n :: int64) = int n" using assms by (rule sint_of_nat_small)
  show ?thesis
    unfolding parseRangeStep_def t
    by (simp add: Let_def i ts p s ne TrimSpace_Nil)
qed

lemma parseRange_at_end:
  assumes "n < 2 ^ 63"
  shows "parseRange (''bytes='' @ FormatInt (of_nat n) @ ''-'') (of_nat n)
           = Inr [\<lparr>start = of_nat n, lengthR = 0\<rparr>]"
proof -
  have nocomma: "CHR '','' \<notin> set (showNat n @ ''-'')"
    using showNat_digits [of n] isDigit_plain by auto
  show ?thesis
    unfolding parseRange_def FormatInt_of_nat [OF assms]
    by (simp add: HasPrefix_def Split_def splitOn_absent [OF nocomma] parseRangeStep_at_end [OF assms])
qed

lemma checkLastModified_headers:
  "checkLastModified env w req t = (w', False) \<Longrightarrow> k \<noteq> ''Last-Modified'' \<Longrightarrow>
     wHeader w' k = wHeader w k"
  by (auto simp add: checkLastModified_def hSet_def Let_def split: if_splits)

lemma serveContent_at_end:
  assumes "0 < n" "n < 2 ^ 63" and len: "length (content fc) = n"
  shows "serveContent env w req fc ctype (''bytes='' @ FormatInt (of_nat n) @ ''-'') =
           sendResponse
             (w\<lparr>wHeader := hSet (wHeader w) ''Content-Range''
                   (contentRange \<lparr>start = of_nat n, lengthR = 0\<rparr> (of_nat n))\<rparr>)
             req True 206 0 (Inr [])"
  unfolding serveContent_def len Let_def parseRange_at_end [OF assms(2)]
  using assms(1,2)
  by (simp add: Let_def sint_of_nat_small readerCopyN_def sumRangesSize_def)

text \<open>
  C10, as the claim states it: the member \<^verbatim>\<open>index.html\<close> has 10 bytes and the request
  carries \<^verbatim>\<open>Range: bytes=10-\<close>; on a response for which a \<^verbatim>\<open>Content-Encoding\<close> is set
  already, the handler answers 206 with \<^verbatim>\<open>Content-Range: bytes 10-9/10\<close> and an empty
  body, and sets no \<^verbatim>\<open>Content-Length\<close>.
\<close>

theorem no_Content_Length_under_Content_Encoding:
  "(case NewZipAssets exampleWorld emptyMemory ''site.zip'' [] of
      (Assets za, err, m) \<Rightarrow>
        map_option (\<lambda>a. length (content (cells m a))) (files za ''index.html'') = Some 10
      \<and> (case ServeHTTP exampleWorld m za encodedWriter
                (getRequest ''/index.html'' [(''Range'', ''bytes=10-'')]) of
           Inr w \<Rightarrow>
             wStatus w = Some 206
           \<and> hGet (wHeader w) ''Content-Range'' = ''bytes 10-9/10''
           \<and> wBody w = []
           \<and> wHeader w ''Content-Length'' = None
         | Inl p \<Rightarrow> False)
    | (FileServer d, err, m) \<Rightarrow> False)"
  by (simp add: load_eval serve_eval parse_eval encodedWriter_def)

text \<open>
  C10, amended: for every size \<open>n\<close> with \<open>0 < n < 2^63\<close> the header \<^verbatim>\<open>bytes=<n>-\<close> is
  accepted by \<^verbatim>\<open>parseRange\<close> and yields the one range of start \<open>n\<close> and length 0.
  When a request for an entry of \<open>n\<close> bytes reaches the range part of the handler with
  that Range header in effect (the path is in the store, neither conditional check
  ends the request, the content type is found without a panic, the writer is fresh),
  the handler answers 206 with \<^verbatim>\<open>Content-Range: bytes <n>-<n-1>/<n>\<close> and an empty
  body; it sets \<^verbatim>\<open>Content-Length: 0\<close> unless a \<^verbatim>\<open>Content-Encoding\<close> is set on the
  response already, in which case it leaves \<^verbatim>\<open>Content-Length\<close> as it was.
\<close>

theorem range_starting_at_size:
  assumes "0 < n" and "n < 2 ^ 63"
  shows
   "parseRange (''bytes='' @ FormatInt (of_nat n) @ ''-'') (of_nat n)
      = Inr [\<lparr>start = of_nat n, lengthR = 0\<rparr>]
  \<and> (files za (if HasPrefix (URLPath req) ''/'' then drop 1 (URLPath req) else URLPath req) = Some a
      \<and> length (content (cells m a)) = n
      \<and> checkLastModified env rw req (lastModified (cells m a)) = (w1, False)
      \<and> checkETag w1 req = (w1, ''bytes='' @ FormatInt (of_nat n) @ ''-'', False)
      \<and> resolveContentType env w1
           (if HasPrefix (URLPath req) ''/'' then drop 1 (URLPath req) else URLPath req) (cells m a)
          = Inr ctype
      \<and> wStatus rw = None \<and> wBody rw = [] \<longrightarrow>
      (\<exists>w. ServeHTTP env m za rw req = Inr w
          \<and> wStatus w = Some 206
          \<and> hGet (wHeader w) ''Content-Range''
              = ''bytes '' @ FormatInt (of_nat n) @ ''-'' @ FormatInt (of_nat n - 1) @ ''/'' @ FormatInt (of_nat n)
          \<and> wBody w = []
          \<and> (hGet (wHeader rw) ''Content-Encoding'' = [] \<longrightarrow> hGet (wHeader w) ''Content-Length'' = ''0'')
          \<and> (hGet (wHeader rw) ''Content-Encoding'' \<noteq> [] \<longrightarrow>
               wHeader w ''Content-Length'' = wHeader rw ''Content-Length'')))"
proof (intro conjI impI)
  show "parseRange (''bytes='' @ FormatInt (of_nat n) @ ''-'') (of_nat n)
      = Inr [\<lparr>start = of_nat n, lengthR = 0\<rparr>]"
    using assms(2) by (rule parseRange_at_end)
next
  let ?upath = "if HasPrefix (URLPath req) ''/'' then drop 1 (URLPath req) else URLPath req"
  let ?cr = "contentRange \<lparr>start = of_nat n, lengthR = 0\<rparr> (of_nat n)"
  assume h: "files za ?upath = Some a
      \<and> length (content (cells m a)) = n
      \<and> checkLastModified env rw req (lastModified (cells m a)) = (w1, False)
      \<and> checkETag w1 req = (w1, ''bytes='' @ FormatInt (of_nat n) @ ''-'', False)
      \<and> resolveContentType env w1 ?upath (cells m a) = Inr ctype
      \<and> wStatus rw = None \<and> wBody rw = []"
  then have sb: "wStatus w1 = None" "wBody w1 = []"
    using checkLastModified_not_done [of env rw req "lastModified (cells m a)" w1] by simp_all
  from h have ce: "wHeader w1 ''Content-Encoding'' = wHeader rw ''Content-Encoding''"
    and cl: "wHeader w1 ''Content-Length'' = wHeader rw ''Content-Length''"
    using checkLastModified_headers [of env rw req "lastModified (cells m a)" w1] by simp_all
  from h have run: "ServeHTTP env m za rw req =
      sendResponse (w1\<lparr>wHeader := hSet (wHeader w1) ''Content-Range'' ?cr\<rparr>) req True 206 0 (Inr [])"
    using serveContent_at_end [OF assms, of "cells m a" env w1 req ctype]
    by (simp add: ServeHTTP_def serveChecked_def Let_def)
  have cr: "?cr = ''bytes '' @ FormatInt (of_nat n) @ ''-'' @ FormatInt (of_nat n - 1) @ ''/'' @ FormatInt (of_nat n)"
    by (simp add: contentRange_def)
  have zero: "FormatInt 0 = ''0''"
    by (simp add: FormatInt_def showNat.simps digitChar_def)
  show "\<exists>w. ServeHTTP env m za rw req = Inr w
          \<and> wStatus w = Some 206
          \<and> hGet (wHeader w) ''Content-Range''
              = ''bytes '' @ FormatInt (of_nat n) @ ''-'' @ FormatInt (of_nat n - 1) @ ''/'' @ FormatInt (of_nat n)
          \<and> wBody w = []
          \<and> (hGet (wHeader rw) ''Content-Encoding'' = [] \<longrightarrow> hGet (wHeader w) ''Content-Length'' = ''0'')
          \<and> (hGet (wHeader rw) ''Content-Encoding'' \<noteq> [] \<longrightarrow>
               wHeader w ''Content-Length'' = wHeader rw ''Content-Length'')"
    unfolding run cr [symmetric]
    using sb ce cl
    by (cases "Method req = ''HEAD''")
       (auto simp add: sendResponse_def Let_def WriteHeader_def hGet_def hSet_def zero)
qed

theorem range_starting_at_size_witness:
  "parseRange ''bytes=10-'' 10 = Inr [\<lparr>start = 10, lengthR = 0\<rparr>]
 \<and> (\<exists>w. ServeHTTP exampleWorld siteMemory siteAssets emptyWriter
           (getRequest ''/index.html'' [(''Range'', ''bytes=10-'')]) = Inr w
        \<and> wStatus w = Some 206
        \<and> hGet (wHeader w) ''Content-Range'' = ''bytes 10-9/10''
        \<and> wBody w = []
        \<and> hGet (wHeader w) ''Content-Length'' = ''0'')"
proof -
  let ?req = "getRequest ''/index.html'' [(''Range'', ''bytes=10-'')]"
  let ?w1 = "emptyWriter\<lparr>wHeader := hSet (wHeader emptyWriter) ''Last-Modified'' ''Sun, 09 Sep 2001 01:46:40 GMT''\<rparr>"
  have n: "(0::nat) < 10" "(10::nat) < 2 ^ 63" by simp_all
  have f10: "FormatInt (of_nat 10) = ''10''" "FormatInt (of_nat 10 - 1) = ''9''"
    by (simp_all add: FormatInt_def showNat.simps digitChar_def)
  have u: "(if HasPrefix (URLPath ?req) ''/'' then drop 1 (URLPath ?req) else URLPath ?req) = ''index.html''"
    by (simp add: getRequest_def HasPrefix_def)
  have h: "files siteAssets (if HasPrefix (URLPath ?req) ''/'' then drop 1 (URLPath ?req) else URLPath ?req) = Some 0
      \<and> length (content (cells siteMemory 0)) = 10
      \<and> checkLastModified exampleWorld emptyWriter ?req (lastModified (cells siteMemory 0)) = (?w1, False)
      \<and> checkETag ?w1 ?req = (?w1, ''bytes='' @ FormatInt (of_nat 10) @ ''-'', False)
      \<and> resolveContentType exampleWorld ?w1
           (if HasPrefix (URLPath ?req) ''/'' then drop 1 (URLPath ?req) else URLPath ?req) (cells siteMemory 0)
          = Inr ''text/html; charset=utf-8''
      \<and> wStatus emptyWriter = None \<and> wBody emptyWriter = []"
    unfolding u f10
    by (simp add: siteAssets_def siteMemory_def checkLastModified_def checkETag_def
          resolveContentType_def Ext_def exampleWorld_def getRequest_def emptyWriter_def hGet_def
          hSet_def T1_def second_def Let_def)
  have ce: "hGet (wHeader emptyWriter) ''Content-Encoding'' = []"
    by (simp add: emptyWriter_def hGet_def)
  from range_starting_at_size [OF n, of siteAssets ?req 0 siteMemory exampleWorld emptyWriter ?w1
      "''text/html; charset=utf-8''"] h ce
  show ?thesis unfolding f10 by (simp del: One_nat_def)
qed

end
